theory Spec2Isabelle
  imports Complex_Main "HOL-Library.Log_Nat"
begin

section \<open>Python floats\<close>

text \<open>
  A \<open>float\<close> is an IEEE 754 binary64 number: a finite value, which is kept as the
  rational it denotes, an infinity, or NaN. The sign of a zero is not kept; no
  operation of the agents tells the two zeros apart.
\<close>

datatype double = Finite rat | PosInf | NegInf | NaN

definition pow2 :: "int \<Rightarrow> rat" where
  "pow2 e = (if 0 \<le> e then 2 ^ nat e else 1 / 2 ^ nat (- e))"

text \<open>The exponent of a positive rational: \<open>pow2 (ilog2 x) \<le> x < pow2 (ilog2 x + 1)\<close>.\<close>

definition ilog2 :: "rat \<Rightarrow> int" where
  "ilog2 x =
     (if 1 \<le> x then bitlen \<lfloor>x\<rfloor> - 1 else - bitlen (\<lceil>1 / x\<rceil> - 1))"

text \<open>The nearest integer, the even one of two that are equally near.\<close>

definition round_half_even :: "rat \<Rightarrow> int" where
  "round_half_even y =
     (let f = \<lfloor>y\<rfloor>; r = y - of_int f
      in if r < 1 / 2 then f
         else if 1 / 2 < r then f + 1
         else if even f then f else f + 1)"

text \<open>
  Rounding to nearest, ties to even: the result of every arithmetic operation and the
  value of a decimal literal. A number has 53 significant bits, its last bit is worth at
  least \<open>2\<^sup>-\<^sup>1\<^sup>0\<^sup>7\<^sup>4\<close>, and what rounds to \<open>2\<^sup>1\<^sup>0\<^sup>2\<^sup>4\<close> or beyond is an infinity.
\<close>

definition round_double :: "rat \<Rightarrow> double" where
  "round_double x =
     (if x = 0 then Finite 0
      else
        let e = max (ilog2 \<bar>x\<bar> - 52) (- 1074);
            y = of_int (round_half_even (\<bar>x\<bar> / pow2 e)) * pow2 e
        in if pow2 1024 \<le> y then (if 0 < x then PosInf else NegInf)
           else Finite (if 0 < x then y else - y))"

text \<open>
  \<open>x + y\<close>, \<open>x * y\<close> and \<open>x / y\<close> on floats; \<open>x / y\<close> only for a \<open>y\<close> that is not zero (the
  agents divide by the length of a list that is not empty).
\<close>

fun float_add :: "double \<Rightarrow> double \<Rightarrow> double" where
  "float_add (Finite a) (Finite b) = round_double (a + b)"
| "float_add NaN _ = NaN"
| "float_add _ NaN = NaN"
| "float_add PosInf NegInf = NaN"
| "float_add NegInf PosInf = NaN"
| "float_add PosInf _ = PosInf"
| "float_add NegInf _ = NegInf"
| "float_add _ PosInf = PosInf"
| "float_add _ NegInf = NegInf"

fun float_mul :: "double \<Rightarrow> double \<Rightarrow> double" where
  "float_mul (Finite a) (Finite b) = round_double (a * b)"
| "float_mul NaN _ = NaN"
| "float_mul _ NaN = NaN"
| "float_mul (Finite a) PosInf = (if a = 0 then NaN else if 0 < a then PosInf else NegInf)"
| "float_mul (Finite a) NegInf = (if a = 0 then NaN else if 0 < a then NegInf else PosInf)"
| "float_mul PosInf (Finite b) = (if b = 0 then NaN else if 0 < b then PosInf else NegInf)"
| "float_mul NegInf (Finite b) = (if b = 0 then NaN else if 0 < b then NegInf else PosInf)"
| "float_mul PosInf PosInf = PosInf"
| "float_mul NegInf NegInf = PosInf"
| "float_mul PosInf NegInf = NegInf"
| "float_mul NegInf PosInf = NegInf"

fun float_div :: "double \<Rightarrow> double \<Rightarrow> double" where
  "float_div (Finite a) (Finite b) = round_double (a / b)"
| "float_div NaN _ = NaN"
| "float_div _ NaN = NaN"
| "float_div (Finite a) _ = Finite 0"
| "float_div PosInf (Finite b) = (if 0 < b then PosInf else NegInf)"
| "float_div NegInf (Finite b) = (if 0 < b then NegInf else PosInf)"
| "float_div _ _ = NaN"

text \<open>\<open>x >= y\<close>: false as soon as one side is NaN.\<close>

fun float_ge :: "double \<Rightarrow> double \<Rightarrow> bool" where
  "float_ge (Finite a) (Finite b) = (b \<le> a)"
| "float_ge NaN _ = False"
| "float_ge _ NaN = False"
| "float_ge PosInf _ = True"
| "float_ge _ NegInf = True"
| "float_ge _ _ = False"

section \<open>Python values, dictionaries and exceptions\<close>

text \<open>
  The agents pass untyped dictionaries around. A dictionary is a list of key-value
  pairs in insertion order, looked up with \<open>map_of\<close>; a value is \<open>None\<close>, a boolean, a
  float, a string, or an opaque object (a \<open>datetime\<close>, say) that is neither a
  number, nor subscriptable, nor JSON serialisable.
\<close>

datatype pyval = PNone | PBool bool | PNum double | PStr string | PObj nat

datatype py_error = KeyError string | TypeError

type_synonym pydict = "(string \<times> pyval) list"

text \<open>Truth value of an object, as \<open>if x:\<close> tests it.\<close>

fun truthy :: "pyval \<Rightarrow> bool" where
  "truthy PNone = False"
| "truthy (PBool b) = b"
| "truthy (PNum x) = (x \<noteq> Finite 0)"
| "truthy (PStr s) = (s \<noteq> [])"
| "truthy (PObj _) = True"

text \<open>\<open>d.get(k, default)\<close> and \<open>d[k]\<close>; the latter raises \<open>KeyError\<close> on a missing key.\<close>

definition dict_get :: "pydict \<Rightarrow> string \<Rightarrow> pyval \<Rightarrow> pyval" where
  "dict_get d k dflt = (case map_of d k of None \<Rightarrow> dflt | Some v \<Rightarrow> v)"

definition dict_item :: "pydict \<Rightarrow> string \<Rightarrow> py_error + pyval" where
  "dict_item d k = (case map_of d k of None \<Rightarrow> Inl (KeyError k) | Some v \<Rightarrow> Inr v)"

text \<open>
  The numeric reading of a value in \<open>+\<close>: an \<open>int\<close> (\<open>bool\<close> is a subclass of \<open>int\<close>) or a
  float. Two ints add exactly; otherwise both operands are taken as floats and the sum
  is rounded. The ints here count list elements, and a list is shorter than \<open>2\<^sup>6\<^sup>3\<close>, so
  that the conversion of an int to a float never overflows.
\<close>

datatype number = PyInt int | PyFloat double

fun as_number :: "pyval \<Rightarrow> number option" where
  "as_number (PBool b) = Some (PyInt (if b then 1 else 0))"
| "as_number (PNum x) = Some (PyFloat x)"
| "as_number _ = None"

fun to_float :: "number \<Rightarrow> double" where
  "to_float (PyInt i) = round_double (of_int i)"
| "to_float (PyFloat x) = x"

fun py_add :: "number \<Rightarrow> number \<Rightarrow> number" where
  "py_add (PyInt i) (PyInt j) = PyInt (i + j)"
| "py_add x y = PyFloat (float_add (to_float x) (to_float y))"

text \<open>
  \<open>sum(xs)\<close>: adds from the int 0, from left to right, and raises \<open>TypeError\<close> at the
  first operand that is no number.
\<close>

fun sum_from :: "number \<Rightarrow> pyval list \<Rightarrow> py_error + number" where
  "sum_from acc [] = Inr acc"
| "sum_from acc (v # vs) =
     (case as_number v of
        None \<Rightarrow> Inl TypeError
      | Some x \<Rightarrow> sum_from (py_add acc x) vs)"

definition py_sum :: "pyval list \<Rightarrow> py_error + number" where
  "py_sum vs = sum_from (PyInt 0) vs"

text \<open>
  \<open>x / n\<close> for a length \<open>n\<close> that is not zero: the quotient of two ints is rounded once;
  a float is divided by the length as a float.
\<close>

fun true_div :: "number \<Rightarrow> nat \<Rightarrow> double" where
  "true_div (PyInt i) n = round_double (of_int i / of_nat n)"
| "true_div (PyFloat x) n = float_div x (to_float (PyInt (int n)))"

text \<open>\<open>x[:8]\<close>: only a string can be sliced here; anything else raises \<open>TypeError\<close>.\<close>

fun slice8 :: "pyval \<Rightarrow> py_error + string" where
  "slice8 (PStr s) = Inr (take 8 s)"
| "slice8 _ = Inl TypeError"

text \<open>\<open>s.replace('_', ' ')\<close>.\<close>

definition replace_underscore :: "string \<Rightarrow> string" where
  "replace_underscore s = map (\<lambda>c. if c = CHR ''_'' then CHR '' '' else c) s"

section \<open>Shared infrastructure: cache, event bus, database\<close>

text \<open>
  The Redis client. An entry is a value with an optional expiry time (in seconds of the
  clock); an entry whose expiry time has been reached is gone. Every command raises when
  the server cannot be reached, which the model shows as \<open>None\<close>.
\<close>

record 'v redis =
  available :: bool
  entries :: "string \<rightharpoonup> ('v \<times> nat option)"

definition live :: "nat \<Rightarrow> ('v \<times> nat option) option \<Rightarrow> ('v \<times> nat option) option" where
  "live now e =
     (case e of
        None \<Rightarrow> None
      | Some (v, None) \<Rightarrow> Some (v, None)
      | Some (v, Some t) \<Rightarrow> if now < t then Some (v, Some t) else None)"

definition redis_get :: "'v redis \<Rightarrow> nat \<Rightarrow> string \<Rightarrow> 'v option option" where
  "redis_get r now k =
     (if available r then Some (map_option fst (live now (entries r k))) else None)"

definition redis_setex :: "'v redis \<Rightarrow> nat \<Rightarrow> string \<Rightarrow> nat \<Rightarrow> 'v \<Rightarrow> 'v redis option" where
  "redis_setex r now k ttl v =
     (if available r then Some (r\<lparr>entries := (entries r)(k \<mapsto> (v, Some (now + ttl)))\<rparr>)
      else None)"

definition redis_expire :: "'v redis \<Rightarrow> nat \<Rightarrow> string \<Rightarrow> nat \<Rightarrow> 'v redis option" where
  "redis_expire r now k ttl =
     (if available r
      then Some (case live now (entries r k) of
                   None \<Rightarrow> r
                 | Some (v, _) \<Rightarrow> r\<lparr>entries := (entries r)(k \<mapsto> (v, Some (now + ttl)))\<rparr>)
      else None)"

text \<open>
  The audit agent keeps counters and alert texts in Redis. \<open>INCR\<close> starts a missing
  key at 1 without an expiry, keeps the expiry of a live counter, and is refused on a
  value that is no integer (an alert text).
\<close>

datatype audit_value = Counter int | Alert string

definition redis_incr :: "audit_value redis \<Rightarrow> nat \<Rightarrow> string \<Rightarrow> (int \<times> audit_value redis) option" where
  "redis_incr r now k =
     (if available r
      then (case live now (entries r k) of
              None \<Rightarrow> Some (1, r\<lparr>entries := (entries r)(k \<mapsto> (Counter 1, None))\<rparr>)
            | Some (Counter n, ex) \<Rightarrow>
                Some (n + 1, r\<lparr>entries := (entries r)(k \<mapsto> (Counter (n + 1), ex))\<rparr>)
            | Some (Alert _, _) \<Rightarrow> None)
      else None)"

text \<open>
  Modelled from the spec: the \<open>KafkaHandler\<close> of \<open>shared/kafka_handler.py\<close>, which is not
  among the sources. The spec's event bus keeps every published message in an ordered
  buffer (the agents look for it under the name \<open>mock_events\<close>); publishing is fire and
  forget: a failure is logged, the message is lost, and nothing is raised to the caller.
\<close>

record kafka_message =
  topic :: string
  key :: pyval
  payload :: pydict

record kafka_handler =
  bus_available :: bool
  mock_events :: "kafka_message list"

definition send_event :: "kafka_handler \<Rightarrow> string \<Rightarrow> pyval \<Rightarrow> pydict \<Rightarrow> kafka_handler" where
  "send_event kh t k v =
     (if bus_available kh
      then kh\<lparr>mock_events := mock_events kh @ [\<lparr>topic = t, key = k, payload = v\<rparr>]\<rparr>
      else kh)"

text \<open>
  The tables of \<open>shared/models.py\<close> with the columns the agents read and write. A
  nullable column read back into a dictionary is a \<open>pyval\<close>.
\<close>

record document_row =
  doc_id :: string
  doc_customer_id :: string
  extracted_text :: pyval
  document_type :: pyval
  sama_compliant :: pyval
  processed_at :: pyval

record kyc_validation_row =
  kyc_id :: string
  kyc_document_id :: pyval
  kyc_customer_id :: string
  kyc_validation_status :: pyval
  kyc_validation_score :: pyval
  kyc_identity_verified :: pyval
  kyc_address_verified :: pyval
  kyc_business_verified :: pyval
  kyc_validation_details :: "string list \<times> string list"

record compliance_summary =
  cs_id :: string
  cs_customer_id :: string
  cs_total_documents :: nat
  cs_compliant_documents :: nat
  cs_overall_compliance_score :: double
  cs_compliance_status :: string
  cs_summary_text :: string
  cs_issues_summary :: "string list"
  cs_recommendations_summary :: "string list"
  cs_updated_at :: nat

text \<open>An audit log entry, as the dictionary \<open>log_entry\<close> and as a row of \<open>audit_logs\<close>.\<close>

record audit_log =
  al_event_type :: string
  al_event_id :: pyval
  al_agent_name :: pyval
  al_customer_id :: pyval
  al_action :: pyval
  al_details :: pydict
  al_status :: pyval
  al_occurred_at :: nat

record database =
  tbl_documents :: "document_row list"
  tbl_kyc_validations :: "kyc_validation_row list"
  tbl_compliance_summaries :: "compliance_summary list"
  tbl_audit_logs :: "audit_log list"

text \<open>
  What every agent holds after \<open>__init__\<close>: the Redis client (\<open>None\<close> when the ping
  failed), the Kafka handler, and the database session (\<open>None\<close> when none was obtained).
  The summary and KYC agents add \<open>memory_storage\<close>, and the audit agent \<open>memory_logs\<close>;
  either exists only when the database initialisation raised (\<open>hasattr\<close> tests it).
\<close>

record 'v agent =
  redis_client :: "'v redis option"
  kafka_handler :: kafka_handler
  db_session :: "database option"

record 'v storage_agent = "'v agent" +
  memory_storage :: "(string \<rightharpoonup> 'v) option"

record audit_agent = "audit_value agent" +
  memory_logs :: "audit_log list option"

text \<open>
  The database set-up of \<open>shared/models.py\<close>, which \<open>__init__\<close> runs. What the
  constructor meets: the Redis client if the ping went through, whether the broker can
  be reached, whether the module already holds a session factory (\<open>SessionLocal\<close>, set by
  an earlier \<open>init_database\<close>), whether \<open>create_engine\<close> and \<open>create_all\<close> go through, and
  what the call of the session factory gives: a session, or an exception.
\<close>

datatype 'a attempt = Raises | Returns 'a

record 'v startup =
  redis_ping :: "'v redis option"
  broker_available :: bool
  session_local :: bool
  create_engine_ok :: bool
  create_all_ok :: bool
  new_session :: "database attempt"

text \<open>
  \<open>init_database\<close> catches every \<open>Exception\<close> and answers \<open>False\<close>; the result is
  paired with whether \<open>SessionLocal\<close> is set afterwards. \<open>create_tables\<close> does the same
  around \<open>create_all\<close>.
\<close>

definition init_database :: "'v startup \<Rightarrow> bool \<Rightarrow> bool \<times> bool" where
  "init_database st sl = (if create_engine_ok st then (True, True) else (False, sl))"

definition create_tables :: "'v startup \<Rightarrow> bool \<Rightarrow> bool \<times> bool" where
  "create_tables st sl =
     (case init_database st sl of
        (False, sl') \<Rightarrow> (False, sl')
      | (True, sl') \<Rightarrow> (create_all_ok st, sl'))"

text \<open>
  \<open>get_database_session\<close>: without a session factory it tries \<open>init_database\<close> once more;
  with one it calls it, outside any \<open>try\<close>; otherwise it returns \<open>None\<close>.
\<close>

definition get_database_session :: "'v startup \<Rightarrow> bool \<Rightarrow> database option attempt" where
  "get_database_session st sl =
     (let sl' = (if \<not> sl then snd (init_database st sl) else sl)
      in if sl'
         then (case new_session st of Raises \<Rightarrow> Raises | Returns db \<Rightarrow> Returns (Some db))
         else Returns None)"

text \<open>
  The part of \<open>__init__\<close> that sets these attributes, the same in the summary and the KYC
  agent: \<open>memory_storage\<close> is created in the \<open>except\<close> branch only, that is when
  \<open>create_tables()\<close> or \<open>get_database_session()\<close> raises.
\<close>

definition init_storage_agent :: "'v startup \<Rightarrow> 'v storage_agent" where
  "init_storage_agent st =
     (case get_database_session st (snd (create_tables st (session_local st))) of
        Returns session \<Rightarrow>
          \<lparr>redis_client = redis_ping st,
           kafka_handler = \<lparr>bus_available = broker_available st, mock_events = []\<rparr>,
           db_session = session,
           memory_storage = None\<rparr>
      | Raises \<Rightarrow>
          \<lparr>redis_client = redis_ping st,
           kafka_handler = \<lparr>bus_available = broker_available st, mock_events = []\<rparr>,
           db_session = None,
           memory_storage = Some Map.empty\<rparr>)"

text \<open>
  \<open>_get_from_cache\<close> and \<open>_save_to_cache\<close>, the same in the summary and the KYC agent.
  The cached JSON text is kept as the dictionary it encodes; every exception of the
  client is swallowed. The time to live is one hour.
\<close>

definition get_from_cache :: "('v, 'z) agent_scheme \<Rightarrow> nat \<Rightarrow> string \<Rightarrow> 'v option" where
  "get_from_cache self now k =
     (case redis_client self of
        None \<Rightarrow> None
      | Some r \<Rightarrow> (case redis_get r now k of None \<Rightarrow> None | Some cached \<Rightarrow> cached))"

definition save_to_cache ::
  "('v, 'z) agent_scheme \<Rightarrow> nat \<Rightarrow> string \<Rightarrow> 'v \<Rightarrow> ('v, 'z) agent_scheme" where
  "save_to_cache self now k data =
     (case redis_client self of
        None \<Rightarrow> self
      | Some r \<Rightarrow>
          (case redis_setex r now k 3600 data of
             None \<Rightarrow> self
           | Some r' \<Rightarrow> self\<lparr>redis_client := Some r'\<rparr>))"

text \<open>
  The rows a ChromaDB call returns: an identifier (or a text) with its metadata, which
  may be missing. Reading the metadata of a row that has none raises, and the loop
  keeps what it had collected.
\<close>

type_synonym chroma_rows = "(string \<times> pydict option) list"

section \<open>The compliance summary agent\<close>

text \<open>The dictionary that \<open>_calculate_scores\<close> returns.\<close>

record scores =
  overall_score :: double
  compliant_count :: nat
  status :: string
  all_issues :: "string list"
  all_recommendations :: "string list"

text \<open>The dictionary that \<open>generate_summary\<close> returns, stores and caches.\<close>

record summary =
  summary_id :: string
  customer_id :: string
  total_documents :: nat
  validated_documents :: nat
  compliant_documents :: nat
  overall_compliance_score :: double
  compliance_status :: string
  summary_text :: string
  issues :: "string list"
  recommendations :: "string list"
  generated_at :: string

type_synonym summary_agent = "summary storage_agent"

definition required_types :: "string list" where
  "required_types = [''commercial_registration'', ''national_id'', ''bank_statement'']"

text \<open>\<open>[doc['type'] for doc in documents]\<close>.\<close>

fun doc_types :: "pydict list \<Rightarrow> py_error + pyval list" where
  "doc_types [] = Inr []"
| "doc_types (doc # docs) =
     (case dict_item doc ''type'' of
        Inl e \<Rightarrow> Inl e
      | Inr t \<Rightarrow> (case doc_types docs of Inl e \<Rightarrow> Inl e | Inr ts \<Rightarrow> Inr (t # ts)))"

text \<open>The loop over the validations that collects the failed ones.\<close>

fun validation_issues :: "pydict list \<Rightarrow> py_error + string list" where
  "validation_issues [] = Inr []"
| "validation_issues (val # vals) =
     (case dict_item val ''status'' of
        Inl e \<Rightarrow> Inl e
      | Inr st \<Rightarrow>
          if st \<noteq> PStr ''passed'' then
            (case dict_item val ''document_id'' of
               Inl e \<Rightarrow> Inl e
             | Inr d \<Rightarrow>
                 (case slice8 d of
                    Inl e \<Rightarrow> Inl e
                  | Inr p \<Rightarrow>
                      (case validation_issues vals of
                         Inl e \<Rightarrow> Inl e
                       | Inr r \<Rightarrow> Inr ((''Document '' @ p @ '' validation failed'') # r))))
          else validation_issues vals)"

text \<open>
  \<open>_calculate_scores(self, documents, validations)\<close>. The agent is threaded through as
  the method receives it; the result is the returned dictionary or the exception raised,
  together with the agent afterwards. The literals \<open>0.6\<close>, \<open>0.4\<close> and \<open>0.8\<close> are the
  floats nearest to them; the int \<open>0\<close> that stands for a missing mean or score is kept as
  the float of the same value.
\<close>

definition calculate_scores ::
  "summary_agent \<Rightarrow> pydict list \<Rightarrow> pydict list \<Rightarrow> (py_error + scores) \<times> summary_agent" where
  "calculate_scores self documents validations =
     (let total_docs = length documents;
          compliant_cnt =
            length (filter (\<lambda>doc. truthy (dict_get doc ''compliant'' (PBool False))) documents);
          validation_scores = List.map_filter (\<lambda>v. map_of v ''score'') validations
      in case (if validation_scores \<noteq> []
               then (case py_sum validation_scores of
                       Inl e \<Rightarrow> Inl e
                     | Inr s \<Rightarrow> Inr (true_div s (length validation_scores)))
               else Inr (Finite 0)) of
           Inl e \<Rightarrow> (Inl e, self)
         | Inr avg_validation_score \<Rightarrow>
             let overall =
                   (if total_docs > 0
                    then float_add
                           (float_mul (true_div (PyInt (int compliant_cnt)) total_docs)
                              (round_double (6 / 10)))
                           (float_mul avg_validation_score (round_double (4 / 10)))
                    else Finite 0);
                 st = (if float_ge overall (round_double (8 / 10)) then ''compliant''
                       else if float_ge overall (round_double (6 / 10)) then ''partially_compliant''
                       else ''non_compliant'')
             in case doc_types documents of
                  Inl e \<Rightarrow> (Inl e, self)
                | Inr tys \<Rightarrow>
                    let missing = filter (\<lambda>req_type. PStr req_type \<notin> set tys) required_types
                    in case validation_issues validations of
                         Inl e \<Rightarrow> (Inl e, self)
                       | Inr failed \<Rightarrow>
                           (Inr \<lparr>overall_score = overall,
                                 compliant_count = compliant_cnt,
                                 status = st,
                                 all_issues =
                                   map (\<lambda>t. ''Missing '' @ replace_underscore t) missing @ failed,
                                 all_recommendations =
                                   map (\<lambda>t. ''Provide '' @ replace_underscore t) missing\<rparr>,
                            self))"

text \<open>
  What one call of \<open>generate_summary\<close> takes from outside the agent: the clock (in
  seconds, and as the texts \<open>str(datetime.now())\<close> and \<open>isoformat()\<close> give), the
  text that \<open>_generate_ai_summary\<close> comes back with (the model's answer or the basic
  text), the answer of the ChromaDB query (\<open>None\<close> when it raises), and whether the
  database raises in each of the three \<open>try\<close> blocks that use it.
\<close>

record environment =
  clock :: nat
  now_text :: string
  now_iso :: string

record summary_env = environment +
  ai_summary_text :: string
  chroma_query :: "chroma_rows option"
  documents_query_fails :: bool
  validations_query_fails :: bool
  summary_store_fails :: bool

fun chroma_documents :: "chroma_rows \<Rightarrow> pydict list" where
  "chroma_documents [] = []"
| "chroma_documents ((i, None) # rows) = []"
| "chroma_documents ((i, Some metadata) # rows) =
     [(''id'', PStr i),
      (''type'', dict_get metadata ''document_type'' (PStr ''unknown'')),
      (''compliant'', PBool (dict_get metadata ''sama_compliant'' (PStr ''false'') = PStr ''true''))]
     # chroma_documents rows"

definition get_customer_documents :: "summary_env \<Rightarrow> summary_agent \<Rightarrow> string \<Rightarrow> pydict list" where
  "get_customer_documents env self cid =
     (let from_db =
            (case db_session self of
               None \<Rightarrow> []
             | Some db \<Rightarrow>
                 if documents_query_fails env then []
                 else map (\<lambda>doc. [(''id'', PStr (doc_id doc)),
                                  (''type'', document_type doc),
                                  (''compliant'', sama_compliant doc),
                                  (''processed_at'', processed_at doc)])
                        (filter (\<lambda>doc. doc_customer_id doc = cid) (tbl_documents db)))
      in if from_db = []
         then (case chroma_query env of None \<Rightarrow> [] | Some rows \<Rightarrow> chroma_documents rows)
         else from_db)"

definition get_validation_results :: "summary_env \<Rightarrow> summary_agent \<Rightarrow> string \<Rightarrow> pydict list" where
  "get_validation_results env self cid =
     (case db_session self of
        None \<Rightarrow> []
      | Some db \<Rightarrow>
          if validations_query_fails env then []
          else map (\<lambda>val. [(''id'', PStr (kyc_id val)),
                           (''document_id'', kyc_document_id val),
                           (''status'', kyc_validation_status val),
                           (''score'', kyc_validation_score val),
                           (''identity_verified'', kyc_identity_verified val),
                           (''address_verified'', kyc_address_verified val),
                           (''business_verified'', kyc_business_verified val)])
                 (filter (\<lambda>val. kyc_customer_id val = cid) (tbl_kyc_validations db)))"

text \<open>Changes the first element that satisfies \<open>P\<close>, as an update of \<open>query.first()\<close> does.\<close>

fun update_first :: "('a \<Rightarrow> bool) \<Rightarrow> ('a \<Rightarrow> 'a) \<Rightarrow> 'a list \<Rightarrow> 'a list" where
  "update_first P f [] = []"
| "update_first P f (x # xs) = (if P x then f x # xs else x # update_first P f xs)"

text \<open>The columns that \<open>_store_summary\<close> overwrites in an existing row, and the row it adds.\<close>

definition update_existing :: "nat \<Rightarrow> summary \<Rightarrow> compliance_summary \<Rightarrow> compliance_summary" where
  "update_existing now s existing =
     existing\<lparr>cs_total_documents := total_documents s,
              cs_compliant_documents := compliant_documents s,
              cs_overall_compliance_score := overall_compliance_score s,
              cs_compliance_status := compliance_status s,
              cs_summary_text := summary_text s,
              cs_issues_summary := issues s,
              cs_recommendations_summary := recommendations s,
              cs_updated_at := now\<rparr>"

definition new_summary :: "nat \<Rightarrow> summary \<Rightarrow> compliance_summary" where
  "new_summary now s =
     \<lparr>cs_id = summary_id s,
      cs_customer_id = customer_id s,
      cs_total_documents = total_documents s,
      cs_compliant_documents = compliant_documents s,
      cs_overall_compliance_score = overall_compliance_score s,
      cs_compliance_status = compliance_status s,
      cs_summary_text = summary_text s,
      cs_issues_summary = issues s,
      cs_recommendations_summary = recommendations s,
      cs_updated_at = now\<rparr>"

text \<open>
  \<open>_store_summary\<close>. With a session: the row of the customer is looked up; if there is
  one its columns are overwritten, otherwise a row is added under the summary's
  identifier, which the primary key refuses when a row already has it. Any exception is
  logged and the transaction rolled back. Without a session the summary goes into
  \<open>memory_storage\<close>, if that exists, under the summary's identifier.
\<close>

definition store_summary :: "summary_env \<Rightarrow> summary_agent \<Rightarrow> summary \<Rightarrow> summary_agent" where
  "store_summary env self s =
     (case db_session self of
        Some db \<Rightarrow>
          if summary_store_fails env then self
          else if \<exists>row \<in> set (tbl_compliance_summaries db). cs_customer_id row = customer_id s
          then self\<lparr>db_session := Some (db\<lparr>tbl_compliance_summaries :=
                 update_first (\<lambda>row. cs_customer_id row = customer_id s)
                   (update_existing (clock env) s) (tbl_compliance_summaries db)\<rparr>)\<rparr>
          else if summary_id s \<in> cs_id ` set (tbl_compliance_summaries db) then self
          else self\<lparr>db_session := Some (db\<lparr>tbl_compliance_summaries :=
                 tbl_compliance_summaries db @ [new_summary (clock env) s]\<rparr>)\<rparr>
      | None \<Rightarrow>
          (case memory_storage self of
             Some m \<Rightarrow> self\<lparr>memory_storage := Some (m(summary_id s \<mapsto> s))\<rparr>
           | None \<Rightarrow> self))"

definition summary_send_events :: "summary_agent \<Rightarrow> summary \<Rightarrow> summary_agent" where
  "summary_send_events self s =
     self\<lparr>kafka_handler :=
       send_event (kafka_handler self) ''compliance-summary-generated'' (PStr (customer_id s))
         [(''summary_id'', PStr (summary_id s)),
          (''customer_id'', PStr (customer_id s)),
          (''status'', PStr (compliance_status s)),
          (''score'', PNum (overall_compliance_score s)),
          (''generated_at'', PStr (generated_at s))]\<rparr>"

text \<open>
  \<open>generate_summary\<close>. \<open>md5\<close> stands for \<open>hashlib.md5(...).hexdigest()\<close>. The result is
  the returned dictionary, or the exception that \<open>_calculate_scores\<close> raised, and the
  agent afterwards.
\<close>

definition generate_summary ::
  "(string \<Rightarrow> string) \<Rightarrow> summary_env \<Rightarrow> summary_agent \<Rightarrow> string
     \<Rightarrow> (py_error + summary) \<times> summary_agent" where
  "generate_summary md5 env self cid =
     (case (if redis_client self \<noteq> None
            then get_from_cache self (clock env) (''summary:'' @ cid) else None) of
        Some cached \<Rightarrow> (Inr cached, self)
      | None \<Rightarrow>
          let documents = get_customer_documents env self cid;
              validations = get_validation_results env self cid
          in case calculate_scores self documents validations of
               (Inl e, self1) \<Rightarrow> (Inl e, self1)
             | (Inr sc, self1) \<Rightarrow>
                 let result = \<lparr>summary_id = md5 (cid @ ''_'' @ now_text env),
                               customer_id = cid,
                               total_documents = length documents,
                               validated_documents = length validations,
                               compliant_documents = compliant_count sc,
                               overall_compliance_score = overall_score sc,
                               compliance_status = status sc,
                               summary_text = ai_summary_text env,
                               issues = all_issues sc,
                               recommendations = all_recommendations sc,
                               generated_at = now_iso env\<rparr>;
                     self2 = store_summary env self1 result;
                     self3 = (if redis_client self2 \<noteq> None
                              then save_to_cache self2 (clock env) (''summary:'' @ cid) result
                              else self2)
                 in (Inr result, summary_send_events self3 result))"

text \<open>Calls of \<open>generate_summary\<close> executed one after the other; the results are dropped.\<close>

fun generate_summaries ::
  "(string \<Rightarrow> string) \<Rightarrow> summary_agent \<Rightarrow> (summary_env \<times> string) list \<Rightarrow> summary_agent" where
  "generate_summaries md5 self [] = self"
| "generate_summaries md5 self ((env, cid) # calls) =
     generate_summaries md5 (snd (generate_summary md5 env self cid)) calls"

section \<open>The audit logging agent\<close>

text \<open>
  An f-string prints a string as it is and \<open>None\<close>, \<open>True\<close> and \<open>False\<close> by name; how it
  prints a number or another object is left to the parameter \<open>fmt\<close>.
\<close>

fun py_str :: "(pyval \<Rightarrow> string) \<Rightarrow> pyval \<Rightarrow> string" where
  "py_str fmt (PStr s) = s"
| "py_str fmt PNone = ''None''"
| "py_str fmt (PBool b) = (if b then ''True'' else ''False'')"
| "py_str fmt v = fmt v"

text \<open>\<open>json.dumps\<close> raises \<open>TypeError\<close> on a dictionary that holds an opaque object.\<close>

definition serializable :: "pydict \<Rightarrow> bool" where
  "serializable d = list_all (\<lambda>(k, v). case v of PObj _ \<Rightarrow> False | _ \<Rightarrow> True) d"

text \<open>
  What one call of \<open>log_event\<close> takes from outside the agent: the clock, also as
  \<open>strftime('%Y%m%d')\<close> and \<open>strftime('%Y%m%d%H%M%S')\<close> print it, and whether adding
  or committing the audit row raises.
\<close>

record audit_env = environment +
  now_ymd :: string
  now_ymdhms :: string
  audit_store_fails :: bool

text \<open>The dictionary that \<open>log_event\<close> returns.\<close>

record log_result =
  logged :: bool
  logged_event_type :: string
  timestamp :: string

text \<open>
  \<open>_store_audit_log\<close>. The column \<open>action\<close> is not nullable, so a row without an action
  is refused; after any exception the entry goes to \<open>memory_logs\<close>, if that exists.
\<close>

definition store_audit_log :: "audit_env \<Rightarrow> audit_agent \<Rightarrow> audit_log \<Rightarrow> audit_agent" where
  "store_audit_log env self log_entry =
     (let in_memory =
            (case memory_logs self of
               Some logs \<Rightarrow> self\<lparr>memory_logs := Some (logs @ [log_entry])\<rparr>
             | None \<Rightarrow> self)
      in case db_session self of
           Some db \<Rightarrow>
             if audit_store_fails env \<or> al_action log_entry = PNone then in_memory
             else self\<lparr>db_session := Some (db\<lparr>tbl_audit_logs := tbl_audit_logs db @ [log_entry]\<rparr>)\<rparr>
         | None \<Rightarrow> in_memory)"

text \<open>
  \<open>_update_metrics\<close>: three Redis commands in one \<open>try\<close>; what was done before a
  command that raises stays done.
\<close>

definition update_metrics :: "audit_env \<Rightarrow> audit_agent \<Rightarrow> string \<Rightarrow> audit_agent" where
  "update_metrics env self event_type =
     (case redis_client self of
        None \<Rightarrow> self
      | Some r \<Rightarrow>
          (case redis_incr r (clock env) (''audit:counter:'' @ event_type) of
             None \<Rightarrow> self
           | Some (_, r1) \<Rightarrow>
               let today_key = ''audit:daily:'' @ now_ymd env @ '':'' @ event_type
               in (case redis_incr r1 (clock env) today_key of
                     None \<Rightarrow> self\<lparr>redis_client := Some r1\<rparr>
                   | Some (_, r2) \<Rightarrow>
                       (case redis_expire r2 (clock env) today_key (86400 * 7) of
                          None \<Rightarrow> self\<lparr>redis_client := Some r2\<rparr>
                        | Some r3 \<Rightarrow> self\<lparr>redis_client := Some r3\<rparr>))))"

text \<open>The first block of \<open>_detect_anomalies\<close>: the repeated-failure counter of the customer.\<close>

definition failure_key :: "(pyval \<Rightarrow> string) \<Rightarrow> pydict \<Rightarrow> string" where
  "failure_key fmt event_data =
     ''audit:failures:'' @ py_str fmt (dict_get event_data ''customer_id'' (PStr ''unknown''))"

definition failure_anomaly :: "(pyval \<Rightarrow> string) \<Rightarrow> pydict \<Rightarrow> string" where
  "failure_anomaly fmt event_data =
     ''Multiple failures detected for customer ''
       @ py_str fmt (dict_get event_data ''customer_id'' PNone)"

definition detect_repeated_failures ::
  "(pyval \<Rightarrow> string) \<Rightarrow> audit_env \<Rightarrow> audit_agent \<Rightarrow> pydict \<Rightarrow> string list \<times> audit_agent" where
  "detect_repeated_failures fmt env self event_data =
     (if dict_get event_data ''status'' PNone = PStr ''failure'' then
        (case redis_client self of
           None \<Rightarrow> ([], self)
         | Some r \<Rightarrow>
             (case redis_incr r (clock env) (failure_key fmt event_data) of
                None \<Rightarrow> ([], self)
              | Some (failures, r1) \<Rightarrow>
                  (case redis_expire r1 (clock env) (failure_key fmt event_data) 3600 of
                     None \<Rightarrow> ([], self\<lparr>redis_client := Some r1\<rparr>)
                   | Some r2 \<Rightarrow>
                       (if failures > 5 then [failure_anomaly fmt event_data] else [],
                        self\<lparr>redis_client := Some r2\<rparr>))))
      else ([], self))"

text \<open>The second block: the event rate of the event type.\<close>

definition detect_event_rate ::
  "audit_env \<Rightarrow> audit_agent \<Rightarrow> string \<Rightarrow> string list \<times> audit_agent" where
  "detect_event_rate env self event_type =
     (case redis_client self of
        None \<Rightarrow> ([], self)
      | Some r \<Rightarrow>
          (case redis_incr r (clock env) (''audit:rate:'' @ event_type) of
             None \<Rightarrow> ([], self)
           | Some (rate, r1) \<Rightarrow>
               (case redis_expire r1 (clock env) (''audit:rate:'' @ event_type) 60 of
                  None \<Rightarrow> ([], self\<lparr>redis_client := Some r1\<rparr>)
                | Some r2 \<Rightarrow>
                    (if rate > 100 then [''High event rate detected for '' @ event_type] else [],
                     self\<lparr>redis_client := Some r2\<rparr>))))"

text \<open>\<open>_detect_anomalies\<close>: both blocks append to the one list \<open>anomalies\<close>.\<close>

definition detect_anomalies ::
  "(pyval \<Rightarrow> string) \<Rightarrow> audit_env \<Rightarrow> audit_agent \<Rightarrow> string \<Rightarrow> pydict
     \<Rightarrow> string list \<times> audit_agent" where
  "detect_anomalies fmt env self event_type event_data =
     (case detect_repeated_failures fmt env self event_data of
        (failures, self1) \<Rightarrow>
          (case detect_event_rate env self1 event_type of
             (rates, self2) \<Rightarrow> (failures @ rates, self2)))"

text \<open>\<open>_handle_anomalies\<close>: each anomaly is published and kept as an alert for an hour.\<close>

fun handle_anomalies :: "audit_env \<Rightarrow> audit_agent \<Rightarrow> string list \<Rightarrow> audit_agent" where
  "handle_anomalies env self [] = self"
| "handle_anomalies env self (anomaly # anomalies) =
     (let self1 = self\<lparr>kafka_handler :=
                    send_event (kafka_handler self) ''audit-anomaly'' (PStr ''anomaly'')
                      [(''anomaly'', PStr anomaly), (''detected_at'', PStr (now_iso env))]\<rparr>;
          self2 = (case redis_client self1 of
                     None \<Rightarrow> self1
                   | Some r \<Rightarrow>
                       (case redis_setex r (clock env) (''audit:alert:'' @ now_ymdhms env) 3600
                               (Alert anomaly) of
                          None \<Rightarrow> self1
                        | Some r' \<Rightarrow> self1\<lparr>redis_client := Some r'\<rparr>))
      in handle_anomalies env self2 anomalies)"

text \<open>The dictionary \<open>log_entry\<close> that \<open>log_event\<close> builds from the event.\<close>

definition make_log_entry :: "audit_env \<Rightarrow> string \<Rightarrow> pydict \<Rightarrow> audit_log" where
  "make_log_entry env event_type event_data =
     \<lparr>al_event_type = event_type,
      al_event_id = dict_get event_data ''event_id'' (PStr []),
      al_agent_name = dict_get event_data ''agent_name'' (PStr ''unknown''),
      al_customer_id = dict_get event_data ''customer_id'' (PStr []),
      al_action = dict_get event_data ''action'' (PStr event_type),
      al_details = event_data,
      al_status = dict_get event_data ''status'' (PStr ''success''),
      al_occurred_at = clock env\<rparr>"

text \<open>
  \<open>log_event\<close>. Besides the returned dictionary (or the exception of \<open>json.dumps\<close>) and
  the agent afterwards, the model hands out the local list \<open>anomalies\<close> of the call, so
  that statements can be made about it.
\<close>

definition log_event ::
  "(pyval \<Rightarrow> string) \<Rightarrow> audit_env \<Rightarrow> audit_agent \<Rightarrow> string \<Rightarrow> pydict
     \<Rightarrow> (py_error + log_result) \<times> string list \<times> audit_agent" where
  "log_event fmt env self event_type event_data =
     (if \<not> serializable event_data then (Inl TypeError, [], self)
      else
        let log_entry = make_log_entry env event_type event_data;
            self1 = store_audit_log env self log_entry;
            self2 = update_metrics env self1 event_type
        in case detect_anomalies fmt env self2 event_type event_data of
             (anomalies, self3) \<Rightarrow>
               (Inr \<lparr>logged = True, logged_event_type = event_type, timestamp = now_iso env\<rparr>,
                anomalies,
                if anomalies \<noteq> [] then handle_anomalies env self3 anomalies else self3))"

text \<open>
  Audit events logged one after the other: the list \<open>anomalies\<close> of each call, in order,
  and the agent at the end.
\<close>

fun log_events ::
  "(pyval \<Rightarrow> string) \<Rightarrow> audit_agent \<Rightarrow> (audit_env \<times> string \<times> pydict) list
     \<Rightarrow> string list list \<times> audit_agent" where
  "log_events fmt self [] = ([], self)"
| "log_events fmt self ((env, event_type, event_data) # events) =
     (case log_event fmt env self event_type event_data of
        (_, anomalies, self1) \<Rightarrow>
          (case log_events fmt self1 events of
             (rest, self2) \<Rightarrow> (anomalies # rest, self2)))"

section \<open>The KYC validation agent\<close>

text \<open>The dictionary that \<open>_retrieve_document\<close> returns for a document it found.\<close>

record kyc_document =
  kd_id :: string
  kd_text :: pyval
  kd_type :: pyval
  kd_customer_id :: pyval

text \<open>
  The dictionary that a rule check returns; the three flags are keys it may lack. The
  score is a finite float (a sum of a few literals), kept as its value.
\<close>

record check =
  check_status :: string
  check_score :: rat
  check_identity_verified :: "bool option"
  check_address_verified :: "bool option"
  check_business_verified :: "bool option"
  check_issues :: "string list"
  check_recommendations :: "string list"

text \<open>
  The checks by document type search the text with regular expressions and are taken
  as parameters: each maps the text to its dictionary or to the exception it raises
  (on a text that is \<open>None\<close>). \<open>ai_validate\<close> is \<open>None\<close> when the agent has no
  language model; otherwise it maps text and type to the exception raised, to no
  finding, or to the list that replaces the issues.
\<close>

record rule_checks =
  validate_commercial_registration :: "pyval \<Rightarrow> py_error + check"
  validate_national_id :: "pyval \<Rightarrow> py_error + check"
  validate_bank_statement :: "pyval \<Rightarrow> py_error + check"
  ai_validate :: "(pyval \<Rightarrow> pyval \<Rightarrow> py_error + string list option) option"

definition validate_generic :: check where
  "validate_generic =
     \<lparr>check_status = ''pending'',
      check_score = 5 / 10,
      check_identity_verified = None,
      check_address_verified = None,
      check_business_verified = None,
      check_issues = [''Document type not recognized''],
      check_recommendations = [''Manual review required'']\<rparr>"

text \<open>The dictionary that \<open>_perform_validation\<close> builds and \<open>validate_kyc\<close> returns.\<close>

record validation =
  validation_id :: string
  document_id :: string
  v_customer_id :: string
  v_document_type :: pyval
  validation_status :: string
  validation_score :: rat
  identity_verified :: bool
  address_verified :: bool
  business_verified :: bool
  v_issues :: "string list"
  v_recommendations :: "string list"
  validated_at :: string

text \<open>What \<open>validate_kyc\<close> returns: the error dictionary with its message, or a validation.\<close>

datatype kyc_response = ErrorResponse string | ValidationResponse validation

type_synonym kyc_agent = "validation storage_agent"

text \<open>
  What one call of \<open>validate_kyc\<close> takes from outside the agent: the clock, the answer
  of the ChromaDB lookup (\<open>None\<close> when it raises; each row is a text with its metadata),
  and whether the database raises in the lookup or in the insert.
\<close>

record kyc_env = environment +
  requested_at_iso :: string
  chroma_get :: "chroma_rows option"
  document_query_fails :: bool
  validation_store_fails :: bool

definition retrieve_document :: "kyc_env \<Rightarrow> kyc_agent \<Rightarrow> string \<Rightarrow> kyc_document option" where
  "retrieve_document env self did =
     (case (case db_session self of
              None \<Rightarrow> None
            | Some db \<Rightarrow>
                if document_query_fails env then None
                else find (\<lambda>doc. doc_id doc = did) (tbl_documents db)) of
        Some doc \<Rightarrow>
          Some \<lparr>kd_id = doc_id doc,
                kd_text = extracted_text doc,
                kd_type = document_type doc,
                kd_customer_id = PStr (doc_customer_id doc)\<rparr>
      | None \<Rightarrow>
          (case chroma_get env of
             None \<Rightarrow> None
           | Some [] \<Rightarrow> None
           | Some ((text, None) # _) \<Rightarrow> None
           | Some ((text, Some metadata) # _) \<Rightarrow>
               Some \<lparr>kd_id = did,
                     kd_text = PStr text,
                     kd_type = dict_get metadata ''document_type'' (PStr ''unknown''),
                     kd_customer_id = dict_get metadata ''customer_id'' PNone\<rparr>))"

definition perform_validation ::
  "(string \<Rightarrow> string) \<Rightarrow> rule_checks \<Rightarrow> kyc_env \<Rightarrow> kyc_document \<Rightarrow> string
     \<Rightarrow> py_error + validation" where
  "perform_validation md5 rules env document cid =
     (let doc_type = kd_type document;
          doc_text = kd_text document
      in case (if doc_type = PStr ''commercial_registration''
               then validate_commercial_registration rules doc_text
               else if doc_type = PStr ''national_id'' then validate_national_id rules doc_text
               else if doc_type = PStr ''bank_statement'' then validate_bank_statement rules doc_text
               else Inr validate_generic) of
           Inl e \<Rightarrow> Inl e
         | Inr chk \<Rightarrow>
             (case (case ai_validate rules of
                      None \<Rightarrow> Inr chk
                    | Some ai \<Rightarrow>
                        (case ai doc_text doc_type of
                           Inl e \<Rightarrow> Inl e
                         | Inr None \<Rightarrow> Inr chk
                         | Inr (Some missing_items) \<Rightarrow> Inr (chk\<lparr>check_issues := missing_items\<rparr>))) of
                Inl e \<Rightarrow> Inl e
              | Inr chk' \<Rightarrow>
                  Inr \<lparr>validation_id = md5 (kd_id document @ ''_'' @ now_text env),
                       document_id = kd_id document,
                       v_customer_id = cid,
                       v_document_type = doc_type,
                       validation_status = check_status chk',
                       validation_score = check_score chk',
                       identity_verified =
                         (case check_identity_verified chk' of None \<Rightarrow> False | Some b \<Rightarrow> b),
                       address_verified =
                         (case check_address_verified chk' of None \<Rightarrow> False | Some b \<Rightarrow> b),
                       business_verified =
                         (case check_business_verified chk' of None \<Rightarrow> False | Some b \<Rightarrow> b),
                       v_issues = check_issues chk',
                       v_recommendations = check_recommendations chk',
                       validated_at = now_iso env\<rparr>))"

text \<open>
  \<open>_store_validation\<close>: a new row under the validation's identifier, refused by the
  primary key when a row already has it; without a session, \<open>memory_storage\<close>.
\<close>

definition store_validation :: "kyc_env \<Rightarrow> kyc_agent \<Rightarrow> validation \<Rightarrow> kyc_agent" where
  "store_validation env self v =
     (case db_session self of
        Some db \<Rightarrow>
          if validation_store_fails env \<or> validation_id v \<in> kyc_id ` set (tbl_kyc_validations db)
          then self
          else self\<lparr>db_session := Some (db\<lparr>tbl_kyc_validations :=
                 tbl_kyc_validations db @
                   [\<lparr>kyc_id = validation_id v,
                     kyc_document_id = PStr (document_id v),
                     kyc_customer_id = v_customer_id v,
                     kyc_validation_status = PStr (validation_status v),
                     kyc_validation_score = PNum (Finite (validation_score v)),
                     kyc_identity_verified = PBool (identity_verified v),
                     kyc_address_verified = PBool (address_verified v),
                     kyc_business_verified = PBool (business_verified v),
                     kyc_validation_details = (v_issues v, v_recommendations v)\<rparr>]\<rparr>)\<rparr>
      | None \<Rightarrow>
          (case memory_storage self of
             Some m \<Rightarrow> self\<lparr>memory_storage := Some (m(validation_id v \<mapsto> v))\<rparr>
           | None \<Rightarrow> self))"

text \<open>The two messages of \<open>_send_events\<close>.\<close>

definition validation_completed :: "validation \<Rightarrow> kafka_message" where
  "validation_completed v =
     \<lparr>topic = ''kyc-validation-completed'',
      key = PStr (document_id v),
      payload = [(''validation_id'', PStr (validation_id v)),
                 (''document_id'', PStr (document_id v)),
                 (''customer_id'', PStr (v_customer_id v)),
                 (''status'', PStr (validation_status v)),
                 (''score'', PNum (Finite (validation_score v))),
                 (''validated_at'', PStr (validated_at v))]\<rparr>"

definition summary_requested :: "kyc_env \<Rightarrow> validation \<Rightarrow> kafka_message" where
  "summary_requested env v =
     \<lparr>topic = ''compliance-summary-requested'',
      key = PStr (v_customer_id v),
      payload = [(''customer_id'', PStr (v_customer_id v)),
                 (''validation_id'', PStr (validation_id v)),
                 (''requested_at'', PStr (requested_at_iso env))]\<rparr>"

definition kyc_send_events :: "kyc_env \<Rightarrow> kyc_agent \<Rightarrow> validation \<Rightarrow> kyc_agent" where
  "kyc_send_events env self v =
     (let completed = validation_completed v;
          kh1 = send_event (kafka_handler self) (topic completed) (key completed) (payload completed);
          requested = summary_requested env v;
          kh2 = (if validation_status v = ''passed''
                 then send_event kh1 (topic requested) (key requested) (payload requested)
                 else kh1)
      in self\<lparr>kafka_handler := kh2\<rparr>)"

text \<open>
  \<open>validate_kyc\<close>: the returned dictionary, or the exception a check raised, and the
  agent afterwards.
\<close>

definition validate_kyc ::
  "(string \<Rightarrow> string) \<Rightarrow> rule_checks \<Rightarrow> kyc_env \<Rightarrow> kyc_agent \<Rightarrow> string \<Rightarrow> string
     \<Rightarrow> (py_error + kyc_response) \<times> kyc_agent" where
  "validate_kyc md5 rules env self did cid =
     (case (if redis_client self \<noteq> None
            then get_from_cache self (clock env) (''kyc:'' @ did) else None) of
        Some cached \<Rightarrow> (Inr (ValidationResponse cached), self)
      | None \<Rightarrow>
          (case retrieve_document env self did of
             None \<Rightarrow> (Inr (ErrorResponse ''Document not found''), self)
           | Some document \<Rightarrow>
               (case perform_validation md5 rules env document cid of
                  Inl e \<Rightarrow> (Inl e, self)
                | Inr validation_result \<Rightarrow>
                    let self1 = store_validation env self validation_result;
                        self2 = (if redis_client self1 \<noteq> None
                                 then save_to_cache self1 (clock env) (''kyc:'' @ did)
                                        validation_result
                                 else self1)
                    in (Inr (ValidationResponse validation_result),
                        kyc_send_events env self2 validation_result))))"

section \<open>Notions used to state the properties\<close>

text \<open>
  Well-formed inputs of the scoring: a document has a type; a validation has a status,
  its score (if it has one) is a number, and if its status is not \<open>passed\<close> its document
  identifier is a string. Outside of these \<open>_calculate_scores\<close> raises.
\<close>

definition wf_document :: "pydict \<Rightarrow> bool" where
  "wf_document d = (map_of d ''type'' \<noteq> None)"

definition wf_validation :: "pydict \<Rightarrow> bool" where
  "wf_validation v =
     ((case map_of v ''score'' of None \<Rightarrow> True | Some s \<Rightarrow> as_number s \<noteq> None) \<and>
      (case map_of v ''status'' of
         None \<Rightarrow> False
       | Some st \<Rightarrow>
           st = PStr ''passed'' \<or>
           (case map_of v ''document_id'' of Some (PStr i) \<Rightarrow> True | _ \<Rightarrow> False)))"

definition is_compliant :: "pydict \<Rightarrow> bool" where
  "is_compliant doc = truthy (dict_get doc ''compliant'' (PBool False))"

text \<open>
  The scoring as the specification words it, over exact numbers: the document
  compliance rate (0 without documents), the mean of the scores of the validations that
  have one (0 without any), the weighted sum of the two, and the status thresholds. The
  exact value of a score is 0 or 1 for a boolean and the value of a finite float.
\<close>

fun exact_value :: "pyval \<Rightarrow> rat option" where
  "exact_value (PBool b) = Some (if b then 1 else 0)"
| "exact_value (PNum (Finite r)) = Some r"
| "exact_value _ = None"

definition spec_document_compliance_rate :: "pydict list \<Rightarrow> rat" where
  "spec_document_compliance_rate documents =
     (if documents = [] then 0
      else of_nat (length (filter is_compliant documents)) / of_nat (length documents))"

definition spec_mean_validation_score :: "pydict list \<Rightarrow> rat" where
  "spec_mean_validation_score validations =
     (let xs = List.map_filter (\<lambda>v. Option.bind (map_of v ''score'') exact_value) validations
      in if xs = [] then 0 else sum_list xs / of_nat (length xs))"

definition spec_overall_score :: "pydict list \<Rightarrow> pydict list \<Rightarrow> rat" where
  "spec_overall_score documents validations =
     6 / 10 * spec_document_compliance_rate documents
     + 4 / 10 * spec_mean_validation_score validations"

definition spec_status :: "rat \<Rightarrow> string" where
  "spec_status x =
     (if x \<ge> 8 / 10 then ''compliant''
      else if x \<ge> 6 / 10 then ''partially_compliant''
      else ''non_compliant'')"

text \<open>The mandatory types that no document has, and the validations that did not pass.\<close>

definition missing_types :: "pydict list \<Rightarrow> string list" where
  "missing_types documents =
     filter (\<lambda>t. list_all (\<lambda>d. map_of d ''type'' \<noteq> Some (PStr t)) documents) required_types"

definition failed_validation :: "pydict \<Rightarrow> bool" where
  "failed_validation v = (map_of v ''status'' \<noteq> Some (PStr ''passed''))"

definition document_id_prefix :: "pydict \<Rightarrow> string" where
  "document_id_prefix v = (case map_of v ''document_id'' of Some (PStr i) \<Rightarrow> take 8 i | _ \<Rightarrow> [])"

text \<open>
  The same in floating-point arithmetic, every operation rounded: the compliance rate
  of a non-empty document list, the mean of the scores (their sum from left to right,
  divided by their number), the weighted sum with the floats nearest 0.6 and 0.4 as
  weights, and the status by comparison with the floats nearest 0.8 and 0.6.
\<close>

definition float_compliance_rate :: "pydict list \<Rightarrow> double" where
  "float_compliance_rate documents =
     round_double (of_nat (length (filter is_compliant documents)) / of_nat (length documents))"

definition float_mean_validation_score :: "pydict list \<Rightarrow> double" where
  "float_mean_validation_score validations =
     (let xs = List.map_filter (\<lambda>v. Option.bind (map_of v ''score'') as_number) validations
      in if xs = [] then Finite 0 else true_div (foldl py_add (PyInt 0) xs) (length xs))"

definition float_overall_score :: "pydict list \<Rightarrow> pydict list \<Rightarrow> double" where
  "float_overall_score documents validations =
     float_add (float_mul (float_compliance_rate documents) (round_double (6 / 10)))
       (float_mul (float_mean_validation_score validations) (round_double (4 / 10)))"

definition float_status :: "double \<Rightarrow> string" where
  "float_status x =
     (if float_ge x (round_double (8 / 10)) then ''compliant''
      else if float_ge x (round_double (6 / 10)) then ''partially_compliant''
      else ''non_compliant'')"

text \<open>What \<open>_calculate_scores\<close> returns on well-formed inputs, field by field.\<close>

definition scores_of :: "pydict list \<Rightarrow> pydict list \<Rightarrow> scores" where
  "scores_of documents validations =
     (let overall = (if documents \<noteq> [] then float_overall_score documents validations
                     else Finite 0)
      in \<lparr>overall_score = overall,
          compliant_count = length (filter is_compliant documents),
          status = float_status overall,
          all_issues =
            map (\<lambda>t. ''Missing '' @ replace_underscore t) (missing_types documents)
            @ map (\<lambda>v. ''Document '' @ document_id_prefix v @ '' validation failed'')
                (filter failed_validation validations),
          all_recommendations =
            map (\<lambda>t. ''Provide '' @ replace_underscore t) (missing_types documents)\<rparr>)"

text \<open>
  The agent that \<open>__init__\<close> leaves when it finds no Redis, no broker and no database
  engine, and example inputs: documents and validations as the agents build them, a
  score being the float nearest to the number given.
\<close>

definition offline_agent :: "'v storage_agent" where
  "offline_agent =
     \<lparr>redis_client = None,
      kafka_handler = \<lparr>bus_available = False, mock_events = []\<rparr>,
      db_session = None,
      memory_storage = None\<rparr>"

definition example_document :: "string \<Rightarrow> string \<Rightarrow> bool \<Rightarrow> pydict" where
  "example_document i t c = [(''id'', PStr i), (''type'', PStr t), (''compliant'', PBool c)]"

definition example_validation :: "rat \<Rightarrow> string \<Rightarrow> string \<Rightarrow> pydict" where
  "example_validation sc st d =
     [(''document_id'', PStr d), (''status'', PStr st), (''score'', PNum (round_double sc))]"

definition example_documents :: "pydict list" where
  "example_documents =
     [example_document ''d1'' ''commercial_registration'' True,
      example_document ''d2'' ''national_id'' True,
      example_document ''d3'' ''tax_certificate'' False]"

definition example_validations :: "pydict list" where
  "example_validations =
     [example_validation (9 / 10) ''passed'' ''d1'',
      example_validation (8 / 10) ''passed'' ''d2'']"

definition example_failed_validations :: "pydict list" where
  "example_failed_validations =
     [example_validation (9 / 10) ''passed'' ''d1'',
      example_validation (3 / 10) ''failed'' ''0123456789abcdef'']"

text \<open>Twelve documents of which eleven are compliant.\<close>

definition twelve_documents :: "pydict list" where
  "twelve_documents =
     example_document ''d0'' ''tax_certificate'' False
     # replicate 11 (example_document ''d1'' ''commercial_registration'' True)"

text \<open>
  The rows of \<open>compliance_summaries\<close> the agent can see, those of one customer, and the
  summaries of one customer in \<open>memory_storage\<close>.
\<close>

definition summary_rows :: "summary_agent \<Rightarrow> compliance_summary list" where
  "summary_rows self =
     (case db_session self of None \<Rightarrow> [] | Some db \<Rightarrow> tbl_compliance_summaries db)"

definition summaries_of :: "summary_agent \<Rightarrow> string \<Rightarrow> compliance_summary list" where
  "summaries_of self c = filter (\<lambda>row. cs_customer_id row = c) (summary_rows self)"

text \<open>No live cache entry for the customer: the call goes on to compute a summary.\<close>

definition summary_cache_miss :: "summary_env \<Rightarrow> summary_agent \<Rightarrow> string \<Rightarrow> bool" where
  "summary_cache_miss env self cid =
     (get_from_cache self (clock env) (''summary:'' @ cid) = None)"

text \<open>Example states and environments: an empty database, two moments of one day.\<close>

definition empty_database :: database where
  "empty_database =
     \<lparr>tbl_documents = [], tbl_kyc_validations = [], tbl_compliance_summaries = [],
      tbl_audit_logs = []\<rparr>"

definition database_agent :: "'v storage_agent" where
  "database_agent =
     \<lparr>redis_client = None,
      kafka_handler = \<lparr>bus_available = True, mock_events = []\<rparr>,
      db_session = Some empty_database,
      memory_storage = None\<rparr>"

definition example_env :: "nat \<Rightarrow> string \<Rightarrow> summary_env" where
  "example_env secs txt =
     \<lparr>clock = secs, now_text = txt, now_iso = txt,
      ai_summary_text = ''Compliance Summary'',
      chroma_query = Some [],
      documents_query_fails = False,
      validations_query_fails = False,
      summary_store_fails = False\<rparr>"



text \<open>
  \<open>create_tables()\<close> or \<open>get_database_session()\<close> raises in \<open>__init__\<close>; the summaries in
  \<open>memory_storage\<close>, as many as there are keys.
\<close>

definition database_setup_raises :: "'v startup \<Rightarrow> bool" where
  "database_setup_raises st =
     (get_database_session st (snd (create_tables st (session_local st))) = Raises)"

definition stored_in_memory :: "summary_agent \<Rightarrow> string \<Rightarrow> summary option" where
  "stored_in_memory self k = (case memory_storage self of None \<Rightarrow> None | Some m \<Rightarrow> m k)"

text \<open>
  The cache backend is unavailable to an agent that has no client or whose server
  cannot be reached.
\<close>

definition cache_unavailable :: "('v, 'z) agent_scheme \<Rightarrow> bool" where
  "cache_unavailable self = (case redis_client self of None \<Rightarrow> True | Some r \<Rightarrow> \<not> available r)"

text \<open>
  A failure event of a customer: a payload that can be logged, with the status
  \<open>failure\<close> and the customer's identifier. The anomaly text for the customer. A
  failure counter that is clear at a given time. Times within one hour.
\<close>

definition failure_event :: "string \<Rightarrow> pydict \<Rightarrow> bool" where
  "failure_event c event_data =
     (serializable event_data
      \<and> map_of event_data ''status'' = Some (PStr ''failure'')
      \<and> map_of event_data ''customer_id'' = Some (PStr c))"

definition repeated_failure_anomaly :: "string \<Rightarrow> string" where
  "repeated_failure_anomaly c = ''Multiple failures detected for customer '' @ c"

definition counter_clear :: "nat \<Rightarrow> audit_agent \<Rightarrow> string \<Rightarrow> bool" where
  "counter_clear now self c =
     (case redis_client self of
        None \<Rightarrow> False
      | Some r \<Rightarrow> available r \<and> live now (entries r (''audit:failures:'' @ c)) = None)"

definition within_one_hour :: "nat list \<Rightarrow> bool" where
  "within_one_hour ts = (sorted ts \<and> (ts = [] \<or> last ts < hd ts + 3600))"

text \<open>Example: an audit agent with a reachable, empty Redis, and six failure events.\<close>

definition cached_audit_agent :: audit_agent where
  "cached_audit_agent =
     \<lparr>redis_client = Some \<lparr>available = True, entries = Map.empty\<rparr>,
      kafka_handler = \<lparr>bus_available = True, mock_events = []\<rparr>,
      db_session = None,
      memory_logs = Some []\<rparr>"

definition uncached_audit_agent :: audit_agent where
  "uncached_audit_agent =
     \<lparr>redis_client = None,
      kafka_handler = \<lparr>bus_available = False, mock_events = []\<rparr>,
      db_session = None,
      memory_logs = Some []\<rparr>"

definition example_audit_env :: "nat \<Rightarrow> audit_env" where
  "example_audit_env secs =
     \<lparr>clock = secs, now_text = ''t'', now_iso = ''t'',
      now_ymd = ''20240101'', now_ymdhms = ''20240101000000'',
      audit_store_fails = False\<rparr>"

definition example_failure :: pydict where
  "example_failure =
     [(''event_id'', PStr ''sum_001''), (''agent_name'', PStr ''ComplianceSummaryAgent''),
      (''customer_id'', PStr ''CUSTOMER_001''), (''action'', PStr ''generate_summary''),
      (''status'', PStr ''failure'')]"

definition six_failures :: "(audit_env \<times> string \<times> pydict) list" where
  "six_failures =
     map (\<lambda>t. (example_audit_env t, ''compliance-summary-generated'', example_failure))
       [0, 600, 1200, 1800, 2400, 3000]"

text \<open>
  What a failure counter reads at a given time (an expired or missing counter reads 0),
  and times that each follow the one before within the hour the counter lives.
\<close>

definition counter_reads :: "nat \<Rightarrow> audit_value redis \<Rightarrow> string \<Rightarrow> int \<Rightarrow> bool" where
  "counter_reads now r k n =
     (case live now (entries r k) of
        None \<Rightarrow> n = 0
      | Some (Counter m, _) \<Rightarrow> m = n
      | Some (Alert _, _) \<Rightarrow> False)"

fun close_times :: "nat list \<Rightarrow> bool" where
  "close_times (t # t' # ts) = (t \<le> t' \<and> t' < t + 3600 \<and> close_times (t' # ts))"
| "close_times _ = True"

text \<open>
  No live cache entry for the document; the document can be read from the database;
  the document can be read from ChromaDB.
\<close>

definition kyc_cache_miss :: "kyc_env \<Rightarrow> kyc_agent \<Rightarrow> string \<Rightarrow> bool" where
  "kyc_cache_miss env self did = (get_from_cache self (clock env) (''kyc:'' @ did) = None)"

definition database_has :: "kyc_env \<Rightarrow> kyc_agent \<Rightarrow> string \<Rightarrow> bool" where
  "database_has env self did =
     (case db_session self of
        None \<Rightarrow> False
      | Some db \<Rightarrow> \<not> document_query_fails env \<and> did \<in> doc_id ` set (tbl_documents db))"

definition chroma_has :: "kyc_env \<Rightarrow> bool" where
  "chroma_has env =
     (case chroma_get env of
        None \<Rightarrow> False
      | Some [] \<Rightarrow> False
      | Some ((text, None) # _) \<Rightarrow> False
      | Some ((text, Some metadata) # _) \<Rightarrow> True)"

text \<open>
  Examples: a validation that passed; an agent without database whose cache still holds
  it for document \<open>doc1\<close>; an agent with a database that holds the document; an
  environment in which ChromaDB has nothing; checks that let every document pass.
\<close>

definition example_validation_result :: validation where
  "example_validation_result =
     \<lparr>validation_id = ''v1'', document_id = ''doc1'', v_customer_id = ''C1'',
      v_document_type = PStr ''commercial_registration'', validation_status = ''passed'',
      validation_score = 9 / 10, identity_verified = False, address_verified = False,
      business_verified = True, v_issues = [], v_recommendations = [],
      validated_at = ''t0''\<rparr>"

definition cached_kyc_agent :: kyc_agent where
  "cached_kyc_agent =
     \<lparr>redis_client = Some \<lparr>available = True,
                             entries = [''kyc:doc1'' \<mapsto> (example_validation_result, Some 3600)]\<rparr>,
      kafka_handler = \<lparr>bus_available = True, mock_events = []\<rparr>,
      db_session = None,
      memory_storage = Some Map.empty\<rparr>"

definition example_document_row :: document_row where
  "example_document_row =
     \<lparr>doc_id = ''doc1'', doc_customer_id = ''C1'',
      extracted_text = PStr ''Commercial Registration Certificate 1010345678'',
      document_type = PStr ''commercial_registration'',
      sama_compliant = PBool True, processed_at = PObj 0\<rparr>"

definition document_kyc_agent :: kyc_agent where
  "document_kyc_agent =
     \<lparr>redis_client = None,
      kafka_handler = \<lparr>bus_available = True, mock_events = []\<rparr>,
      db_session = Some (empty_database\<lparr>tbl_documents := [example_document_row]\<rparr>),
      memory_storage = None\<rparr>"

definition example_kyc_env :: "nat \<Rightarrow> kyc_env" where
  "example_kyc_env secs =
     \<lparr>clock = secs, now_text = ''t1'', now_iso = ''t1'',
      requested_at_iso = ''t1'',
      chroma_get = Some [],
      document_query_fails = False,
      validation_store_fails = False\<rparr>"

definition passing_check :: check where
  "passing_check =
     \<lparr>check_status = ''passed'', check_score = 9 / 10,
      check_identity_verified = None, check_address_verified = None,
      check_business_verified = Some True,
      check_issues = [], check_recommendations = []\<rparr>"

definition failing_check :: check where
  "failing_check =
     \<lparr>check_status = ''failed'', check_score = 3 / 10,
      check_identity_verified = None, check_address_verified = None,
      check_business_verified = Some False,
      check_issues = [''Valid 10-digit CR number not found''],
      check_recommendations = [''Ensure all CR details are visible'']\<rparr>"

definition example_rules :: "check \<Rightarrow> rule_checks" where
  "example_rules chk =
     \<lparr>validate_commercial_registration = (\<lambda>text. Inr chk),
      validate_national_id = (\<lambda>text. Inr chk),
      validate_bank_statement = (\<lambda>text. Inr chk),
      ai_validate = None\<rparr>"

section \<open>Rounding\<close>

lemma pow2_powi: "pow2 e = 2 powi e"
  by (simp add: pow2_def power_int_def inverse_eq_divide power_one_over)

lemma pow2_pos [simp]: "0 < pow2 e"
  by (simp add: pow2_powi)

lemma pow2_add: "pow2 (a + b) = pow2 a * pow2 b"
  by (simp add: pow2_powi power_int_add)

lemma pow2_diff: "pow2 (a - b) = pow2 a / pow2 b"
  by (simp add: pow2_powi power_int_diff)

lemma pow2_mono: "a \<le> b \<Longrightarrow> pow2 a \<le> pow2 b"
  by (simp add: pow2_powi power_int_increasing)

lemma pow2_strict_mono: "a < b \<Longrightarrow> pow2 a < pow2 b"
  by (simp add: pow2_powi power_int_strict_increasing)

lemma pow2_nat: "0 \<le> e \<Longrightarrow> pow2 e = 2 ^ nat e"
  by (simp add: pow2_def)

lemma pow2_neg: "0 \<le> e \<Longrightarrow> pow2 (- e) = 1 / 2 ^ nat e"
  by (cases "e = 0") (simp_all add: pow2_def)

lemma of_int_le_power2: "(t :: int) \<le> 2 ^ n \<Longrightarrow> (of_int t :: rat) \<le> 2 ^ n"
  by (metis of_int_le_iff of_int_numeral of_int_power)

lemma power2_le_of_int: "2 ^ n \<le> (t :: int) \<Longrightarrow> (2 ^ n :: rat) \<le> of_int t"
  by (metis of_int_le_iff of_int_numeral of_int_power)

text \<open>The exponent that \<open>ilog2\<close> finds is the one of the binade of \<open>x\<close>.\<close>

lemma ilog2_bounds:
  assumes "0 < x"
  shows "pow2 (ilog2 x) \<le> x \<and> x < pow2 (ilog2 x + 1)"
proof (cases "1 \<le> x")
  case True
  define f where "f = \<lfloor>x\<rfloor>"
  from True have f: "0 < f" by (simp add: f_def)
  then have b: "1 \<le> bitlen f" by (simp add: bitlen_alt_def)
  from bitlen_bounds [OF f]
  have lo: "2 ^ nat (bitlen f - 1) \<le> f" and hi: "f < 2 ^ nat (bitlen f)" by simp_all
  have "of_int f \<le> x" by (simp add: f_def)
  with power2_le_of_int [OF lo] have "2 ^ nat (bitlen f - 1) \<le> x" by linarith
  then have 1: "pow2 (bitlen f - 1) \<le> x"
    using b by (simp add: pow2_nat)
  from hi have "f + 1 \<le> 2 ^ nat (bitlen f)" by simp
  from of_int_le_power2 [OF this] have "of_int f + 1 \<le> (2 ^ nat (bitlen f) :: rat)" by simp
  moreover have "x < of_int f + 1"
    unfolding f_def using floor_correct [of x] by simp
  ultimately have "x < 2 ^ nat (bitlen f)" by linarith
  then have 2: "x < pow2 (bitlen f)"
    using b by (simp add: pow2_nat)
  from True 1 2 show ?thesis by (simp add: ilog2_def f_def)
next
  case False
  define t where "t = \<lceil>1 / x\<rceil>"
  define n where "n = nat (bitlen (t - 1) - 1)"
  from False assms have y: "1 < 1 / x" by simp
  then have "1 < t" by (simp add: t_def less_ceiling_iff)
  then have t: "0 < t - 1" by simp
  then have b: "1 \<le> bitlen (t - 1)" by (simp add: bitlen_alt_def)
  then have n: "nat (bitlen (t - 1)) = Suc n" by (simp add: n_def)
  from bitlen_bounds [OF t]
  have lo: "2 ^ n \<le> t - 1" and hi: "t - 1 < 2 ^ Suc n"
    unfolding n n_def by simp_all
  from hi have "t \<le> 2 ^ Suc n" by simp
  from of_int_le_power2 [OF this] have "of_int t \<le> (2 ^ Suc n :: rat)" .
  moreover have "1 / x \<le> of_int t" by (simp add: t_def)
  ultimately have "1 / x \<le> 2 ^ Suc n" by linarith
  with assms have "1 / 2 ^ Suc n \<le> x"
    by (simp add: field_simps)
  moreover have "pow2 (- bitlen (t - 1)) = 1 / 2 ^ Suc n"
    using b pow2_neg [of "bitlen (t - 1)"] n by simp
  ultimately have 1: "pow2 (- bitlen (t - 1)) \<le> x" by simp
  from power2_le_of_int [OF lo] have "(2 ^ n :: rat) \<le> of_int t - 1" by simp
  moreover have "of_int t - 1 < 1 / x"
    unfolding t_def using ceiling_correct [of "1 / x"] by simp
  ultimately have "2 ^ n < 1 / x" by linarith
  with assms have "x < 1 / 2 ^ n"
    by (simp add: field_simps)
  moreover have "pow2 (- bitlen (t - 1) + 1) = 1 / 2 ^ n"
    using b pow2_neg [of "bitlen (t - 1) - 1"] by (simp add: n_def)
  ultimately have 2: "x < pow2 (- bitlen (t - 1) + 1)" by simp
  from False 1 2 show ?thesis by (simp add: ilog2_def t_def)
qed

lemma ilog2_unique:
  assumes "pow2 i \<le> x" and "x < pow2 (i + 1)"
  shows "ilog2 x = i"
proof -
  from assms(1) have pos: "0 < x" using pow2_pos [of i] by linarith
  note b = ilog2_bounds [OF pos]
  have "\<not> ilog2 x < i"
  proof
    assume "ilog2 x < i"
    then have "pow2 (ilog2 x + 1) \<le> pow2 i" by (intro pow2_mono) simp
    with b assms(1) show False by linarith
  qed
  moreover have "\<not> i < ilog2 x"
  proof
    assume "i < ilog2 x"
    then have "pow2 (i + 1) \<le> pow2 (ilog2 x)" by (intro pow2_mono) simp
    with b assms(2) show False by linarith
  qed
  ultimately show ?thesis by linarith
qed

text \<open>Rounding to an integer moves by at most a half and keeps integer bounds.\<close>

lemma round_half_even_error: "\<bar>of_int (round_half_even y) - y\<bar> \<le> 1 / 2"
proof -
  have "of_int \<lfloor>y\<rfloor> \<le> y" "y < of_int \<lfloor>y\<rfloor> + 1"
    using floor_correct [of y] by simp_all
  then show ?thesis
    unfolding round_half_even_def Let_def
    by (cases "y - of_int \<lfloor>y\<rfloor> < 1 / 2"; cases "1 / 2 < y - of_int \<lfloor>y\<rfloor>";
        cases "even \<lfloor>y\<rfloor>") (simp_all add: abs_if, linarith+)
qed

lemma round_half_even_of_int [simp]: "round_half_even (of_int n) = n"
  by (simp add: round_half_even_def)

lemma round_half_even_le:
  assumes "y \<le> of_int n"
  shows "round_half_even y \<le> n"
proof (cases "y = of_int n")
  case True
  then show ?thesis by simp
next
  case False
  with assms have "y < of_int n" by simp
  then have "\<lfloor>y\<rfloor> < n" by (simp add: floor_less_iff)
  then show ?thesis
    by (simp add: round_half_even_def Let_def)
qed

lemma round_half_even_ge:
  assumes "of_int n \<le> y"
  shows "n \<le> round_half_even y"
proof -
  from assms have "n \<le> \<lfloor>y\<rfloor>" by (simp add: le_floor_iff)
  then show ?thesis
    by (simp add: round_half_even_def Let_def)
qed

lemma round_half_even_fraction:
  assumes "0 < q"
  shows "round_half_even (of_int p / of_int q) =
           (if 2 * (p mod q) < q then p div q
            else if q < 2 * (p mod q) then p div q + 1
            else if even (p div q) then p div q else p div q + 1)"
proof -
  have f: "\<lfloor>(of_int p / of_int q :: rat)\<rfloor> = p div q"
    by (simp add: floor_divide_of_int_eq)
  have "(of_int p :: rat) = of_int (p div q) * of_int q + of_int (p mod q)"
    by (metis div_mult_mod_eq of_int_add of_int_mult)
  then have r: "(of_int p / of_int q :: rat) - of_int (p div q) = of_int (p mod q) / of_int q"
    using assms by (simp add: field_simps)
  have lt: "(of_int (p mod q) / of_int q < (1 / 2 :: rat)) = (2 * (p mod q) < q)"
  proof -
    have "(of_int (p mod q) / of_int q < (1 / 2 :: rat))
            = ((of_int (2 * (p mod q)) :: rat) < of_int q)"
      using assms by (simp add: field_simps)
    then show ?thesis by (simp only: of_int_less_iff)
  qed
  have gt: "((1 / 2 :: rat) < of_int (p mod q) / of_int q) = (q < 2 * (p mod q))"
  proof -
    have "((1 / 2 :: rat) < of_int (p mod q) / of_int q)
            = ((of_int q :: rat) < of_int (2 * (p mod q)))"
      using assms by (simp add: field_simps)
    then show ?thesis by (simp only: of_int_less_iff)
  qed
  show ?thesis
    unfolding round_half_even_def Let_def f r lt gt by (rule refl)
qed

lemma round_half_even_numeral [simp]:
  "round_half_even (numeral p / numeral q) =
     (if 2 * (numeral p mod numeral q) < (numeral q :: int) then numeral p div numeral q
      else if (numeral q :: int) < 2 * (numeral p mod numeral q) then numeral p div numeral q + 1
      else if even (numeral p div numeral q :: int) then numeral p div numeral q
      else numeral p div numeral q + 1)"
  "round_half_even (numeral p) = numeral p"
  using round_half_even_fraction [of "numeral q" "numeral p"]
    round_half_even_of_int [of "numeral p"]
  by simp_all

text \<open>What \<open>round_double\<close> does to a positive number of a known binade.\<close>

lemma round_double_pos:
  assumes "pow2 i \<le> x" and "x < pow2 (i + 1)"
  shows "round_double x =
           (if pow2 1024 \<le> of_int (round_half_even (x / pow2 (max (i - 52) (- 1074))))
                               * pow2 (max (i - 52) (- 1074))
            then PosInf
            else Finite (of_int (round_half_even (x / pow2 (max (i - 52) (- 1074))))
                           * pow2 (max (i - 52) (- 1074))))"
proof -
  from assms(1) have pos: "0 < x" using pow2_pos [of i] by linarith
  with ilog2_unique [OF assms] show ?thesis
    by (simp add: round_double_def Let_def)
qed

lemma round_double_0 [simp]: "round_double 0 = Finite 0"
  by (simp add: round_double_def)

text \<open>
  A number of a binade that has 53 bits and lies below \<open>2\<^sup>5\<^sup>3\<close> is rounded to a multiple
  of the binade's unit.
\<close>

lemma round_double_normal:
  assumes "pow2 i \<le> x" and "x < pow2 (i + 1)" and "- 1022 \<le> i" and "i \<le> 52"
  shows "round_double x
           = Finite (of_int (round_half_even (x * 2 ^ nat (52 - i))) / 2 ^ nat (52 - i))"
proof -
  have e: "max (i - 52) (- 1074) = i - 52" using assms(3) by simp
  have p: "pow2 (i - 52) = 1 / 2 ^ nat (52 - i)"
    using assms(4) pow2_neg [of "52 - i"] by simp
  have "x / pow2 (i - 52) < pow2 (i + 1) / pow2 (i - 52)"
    using assms(2) by (simp add: divide_strict_right_mono)
  also have "\<dots> = pow2 53"
    using pow2_diff [of "i + 1" "i - 52"] by (simp add: add.commute)
  also have "\<dots> = of_int (2 ^ 53)"
    by (simp add: pow2_def)
  finally have "round_half_even (x / pow2 (i - 52)) \<le> 2 ^ 53"
    by (intro round_half_even_le) simp
  then have "(of_int (round_half_even (x / pow2 (i - 52))) :: rat) \<le> 2 ^ 53"
    by (rule of_int_le_power2)
  then have "of_int (round_half_even (x / pow2 (i - 52))) * pow2 (i - 52) \<le> 2 ^ 53 * pow2 (i - 52)"
    by (simp add: mult_right_mono)
  also have "\<dots> = pow2 53 * pow2 (i - 52)" by (simp add: pow2_def)
  also have "\<dots> = pow2 (i + 1)" using pow2_add [of 53 "i - 52"] by (simp add: add.commute)
  also have "\<dots> < pow2 1024" using assms(4) by (intro pow2_strict_mono) simp
  finally have "\<not> pow2 1024 \<le> of_int (round_half_even (x / pow2 (i - 52))) * pow2 (i - 52)"
    by simp
  with round_double_pos [OF assms(1,2)] show ?thesis
    by (simp add: e p)
qed

lemma round_double_binade:
  "2 \<le> x \<Longrightarrow> x < 4 \<Longrightarrow>
     round_double x = Finite (of_int (round_half_even (x * 2 ^ 51)) / 2 ^ 51)"
  "1 \<le> x \<Longrightarrow> x < 2 \<Longrightarrow>
     round_double x = Finite (of_int (round_half_even (x * 2 ^ 52)) / 2 ^ 52)"
  "1 / 2 \<le> x \<Longrightarrow> x < 1 \<Longrightarrow>
     round_double x = Finite (of_int (round_half_even (x * 2 ^ 53)) / 2 ^ 53)"
  "1 / 4 \<le> x \<Longrightarrow> x < 1 / 2 \<Longrightarrow>
     round_double x = Finite (of_int (round_half_even (x * 2 ^ 54)) / 2 ^ 54)"
  using round_double_normal [of 1 x] round_double_normal [of 0 x]
    round_double_normal [of "- 1" x] round_double_normal [of "- 2" x]
  by (simp_all add: pow2_def)

lemma round_double_literals:
  "round_double (6 / 10) = Finite (5404319552844595 / 9007199254740992)"
  "round_double (4 / 10) = Finite (3602879701896397 / 9007199254740992)"
  "round_double (8 / 10) = Finite (3602879701896397 / 4503599627370496)"
  "round_double 1 = Finite 1"
  "round_double (3 / 5) = Finite (5404319552844595 / 9007199254740992)"
  "round_double (2 / 5) = Finite (3602879701896397 / 9007199254740992)"
  "round_double (4 / 5) = Finite (3602879701896397 / 4503599627370496)"
  by (simp_all add: round_double_binade)

section \<open>The scoring computation\<close>

lemma sum_from_numbers:
  "\<forall>v\<in>set vs. as_number v \<noteq> None \<Longrightarrow>
   sum_from acc vs = Inr (foldl py_add acc (map (the \<circ> as_number) vs))"
  by (induction vs arbitrary: acc) auto

lemma py_sum_numbers:
  "\<forall>v\<in>set vs. as_number v \<noteq> None \<Longrightarrow>
   py_sum vs = Inr (foldl py_add (PyInt 0) (map (the \<circ> as_number) vs))"
  by (simp add: py_sum_def sum_from_numbers)

lemma doc_types_wf:
  "\<forall>d\<in>set docs. wf_document d \<Longrightarrow> doc_types docs = Inr (map (\<lambda>d. the (map_of d ''type'')) docs)"
  by (induction docs) (auto simp: wf_document_def dict_item_def)

lemma validation_issues_wf:
  "\<forall>v\<in>set vals. wf_validation v \<Longrightarrow>
   validation_issues vals =
     Inr (map (\<lambda>v. ''Document '' @ document_id_prefix v @ '' validation failed'')
            (filter failed_validation vals))"
proof (induction vals)
  case Nil
  then show ?case by simp
next
  case (Cons v vals)
  then have wf: "wf_validation v" and rest: "\<forall>v\<in>set vals. wf_validation v" by simp_all
  from wf obtain st where st: "map_of v ''status'' = Some st"
    by (auto simp: wf_validation_def split: option.splits)
  show ?case
  proof (cases "st = PStr ''passed''")
    case True
    with st Cons.IH rest show ?thesis
      by (simp add: dict_item_def failed_validation_def)
  next
    case False
    with wf st obtain i where i: "map_of v ''document_id'' = Some (PStr i)"
      by (auto simp: wf_validation_def split: option.splits pyval.splits)
    with False st Cons.IH rest show ?thesis
      by (simp add: dict_item_def failed_validation_def document_id_prefix_def)
  qed
qed

lemma scores_wf:
  "\<forall>v\<in>set vals. wf_validation v \<Longrightarrow>
   map (the \<circ> as_number) (List.map_filter (\<lambda>v. map_of v ''score'') vals)
     = List.map_filter (\<lambda>v. Option.bind (map_of v ''score'') as_number) vals
    \<and> (\<forall>s\<in>set (List.map_filter (\<lambda>v. map_of v ''score'') vals). as_number s \<noteq> None)"
  by (induction vals) (auto simp: wf_validation_def List.map_filter_simps split: option.splits)

lemma calculate_scores_wf:
  assumes docs: "\<forall>d\<in>set documents. wf_document d"
      and vals: "\<forall>v\<in>set validations. wf_validation v"
  shows "calculate_scores self documents validations = (Inr (scores_of documents validations), self)"
proof -
  let ?sc = "List.map_filter (\<lambda>v. map_of v ''score'') validations"
  let ?nums = "List.map_filter (\<lambda>v. Option.bind (map_of v ''score'') as_number) validations"
  from scores_wf [OF vals]
  have eq: "map (the \<circ> as_number) ?sc = ?nums"
    and num: "\<forall>s\<in>set ?sc. as_number s \<noteq> None" by simp_all
  have sum: "py_sum ?sc = Inr (foldl py_add (PyInt 0) ?nums)"
    using py_sum_numbers [OF num] eq by simp
  have len: "length ?nums = length ?sc"
    using eq [symmetric] by simp
  have nil: "(?sc = []) = (?nums = [])"
    using len by (metis length_0_conv)
  have miss: "filter (\<lambda>t. PStr t \<notin> (\<lambda>d. the (map_of d ''type'')) ` set documents) required_types
                = missing_types documents"
    unfolding missing_types_def using docs
    by (intro filter_cong refl) (force simp: wf_document_def list_all_iff)
  show ?thesis
    unfolding calculate_scores_def scores_of_def
    by (simp add: Let_def sum len nil doc_types_wf [OF docs] validation_issues_wf [OF vals]
          miss float_mean_validation_score_def float_compliance_rate_def float_overall_score_def
          float_status_def is_compliant_def [abs_def])
qed

lemma wf_example_validation [simp]: "wf_validation (example_validation sc st d)"
  by (simp add: wf_validation_def example_validation_def)

lemma wf_example_document [simp]: "wf_document (example_document i t c)"
  by (simp add: wf_document_def example_document_def)

text \<open>The scoring hands the agent back as it was, and computes without looking at it.\<close>

lemma calculate_scores_agent:
  "fst (calculate_scores self documents validations)
     = fst (calculate_scores self' documents validations)"
  "snd (calculate_scores self documents validations) = self"
proof -
  define avg where "avg =
    (if List.map_filter (\<lambda>v. map_of v ''score'') validations \<noteq> []
     then (case py_sum (List.map_filter (\<lambda>v. map_of v ''score'') validations) of
             Inl e \<Rightarrow> Inl e
           | Inr s \<Rightarrow>
               Inr (true_div s (length (List.map_filter (\<lambda>v. map_of v ''score'') validations))))
     else (Inr (Finite 0) :: py_error + double))"
  show "fst (calculate_scores self documents validations)
     = fst (calculate_scores self' documents validations)"
    unfolding calculate_scores_def Let_def avg_def [symmetric]
    by (cases avg; cases "doc_types documents"; cases "validation_issues validations") simp_all
  show "snd (calculate_scores self documents validations) = self"
    unfolding calculate_scores_def Let_def avg_def [symmetric]
    by (cases avg; cases "doc_types documents"; cases "validation_issues validations") simp_all
qed

text \<open>
  Conversely, the scoring returns a dictionary only on well-formed inputs: on any other
  input one of its steps raises.
\<close>

lemma sum_from_returns:
  "(\<exists>s. sum_from acc vs = Inr s) \<longleftrightarrow> (\<forall>v\<in>set vs. as_number v \<noteq> None)"
proof (induction vs arbitrary: acc)
  case Nil
  then show ?case by simp
next
  case (Cons v vs)
  show ?case
  proof (cases "as_number v")
    case None
    then show ?thesis by simp
  next
    case (Some x)
    with Cons.IH [of "py_add acc x"] show ?thesis by simp
  qed
qed

lemma py_sum_returns:
  "(\<exists>s. py_sum vs = Inr s) \<longleftrightarrow> (\<forall>v\<in>set vs. as_number v \<noteq> None)"
  by (simp add: py_sum_def sum_from_returns)

lemma scores_numeric:
  "(\<forall>s\<in>set (List.map_filter (\<lambda>v. map_of v ''score'') vals). as_number s \<noteq> None)
     \<longleftrightarrow> (\<forall>v\<in>set vals. case map_of v ''score'' of None \<Rightarrow> True | Some s \<Rightarrow> as_number s \<noteq> None)"
  by (induction vals) (auto simp: List.map_filter_simps split: option.splits)

lemma doc_types_returns:
  "(\<exists>ts. doc_types docs = Inr ts) \<longleftrightarrow> (\<forall>d\<in>set docs. wf_document d)"
proof (induction docs)
  case Nil
  then show ?case by simp
next
  case (Cons d docs)
  show ?case
  proof (cases "map_of d ''type''")
    case None
    then show ?thesis by (simp add: dict_item_def wf_document_def)
  next
    case (Some t)
    with Cons.IH show ?thesis
      by (cases "doc_types docs") (auto simp: dict_item_def wf_document_def)
  qed
qed

lemma validation_issues_returns:
  "(\<exists>r. validation_issues vals = Inr r) \<longleftrightarrow>
   (\<forall>v\<in>set vals.
      case map_of v ''status'' of
        None \<Rightarrow> False
      | Some st \<Rightarrow>
          st = PStr ''passed'' \<or>
          (case map_of v ''document_id'' of Some (PStr i) \<Rightarrow> True | _ \<Rightarrow> False))"
proof (induction vals)
  case Nil
  then show ?case by simp
next
  case (Cons v vals)
  show ?case
  proof (cases "map_of v ''status''")
    case None
    then show ?thesis by (simp add: dict_item_def)
  next
    case st: (Some st)
    show ?thesis
    proof (cases "st = PStr ''passed''")
      case True
      with st Cons.IH show ?thesis by (simp add: dict_item_def)
    next
      case False
      show ?thesis
      proof (cases "map_of v ''document_id''")
        case None
        with st False show ?thesis by (simp add: dict_item_def)
      next
        case (Some d)
        show ?thesis
        proof (cases d)
          case (PStr i)
          with st False Some Cons.IH show ?thesis
            by (cases "validation_issues vals") (auto simp: dict_item_def)
        qed (use st False Some in \<open>simp_all add: dict_item_def\<close>)
      qed
    qed
  qed
qed

lemma calculate_scores_returns:
  "(\<exists>r. fst (calculate_scores self documents validations) = Inr r) \<longleftrightarrow>
   list_all wf_document documents \<and> list_all wf_validation validations"
proof
  assume "list_all wf_document documents \<and> list_all wf_validation validations"
  then show "\<exists>r. fst (calculate_scores self documents validations) = Inr r"
    by (simp add: calculate_scores_wf list_all_iff)
next
  assume ret: "\<exists>r. fst (calculate_scores self documents validations) = Inr r"
  let ?sc = "List.map_filter (\<lambda>v. map_of v ''score'') validations"
  define avg where "avg =
    (if ?sc \<noteq> []
     then (case py_sum ?sc of Inl e \<Rightarrow> Inl e | Inr s \<Rightarrow> Inr (true_div s (length ?sc)))
     else Inr (Finite 0))"
  from ret have all: "(\<exists>s. py_sum ?sc = Inr s) \<and> (\<exists>ts. doc_types documents = Inr ts)
      \<and> (\<exists>r. validation_issues validations = Inr r)"
    unfolding calculate_scores_def Let_def avg_def [symmetric]
    by (cases avg; cases "doc_types documents"; cases "validation_issues validations";
        cases "py_sum ?sc"; cases "?sc = []")
       (simp_all add: avg_def py_sum_def)
  then have "\<forall>s\<in>set ?sc. as_number s \<noteq> None"
    and docs: "\<forall>d\<in>set documents. wf_document d"
    and st: "\<forall>v\<in>set validations.
      case map_of v ''status'' of
        None \<Rightarrow> False
      | Some st \<Rightarrow>
          st = PStr ''passed'' \<or>
          (case map_of v ''document_id'' of Some (PStr i) \<Rightarrow> True | _ \<Rightarrow> False)"
    using py_sum_returns [of ?sc] doc_types_returns [of documents]
      validation_issues_returns [of validations] by blast+
  then have sc: "\<forall>v\<in>set validations.
      case map_of v ''score'' of None \<Rightarrow> True | Some s \<Rightarrow> as_number s \<noteq> None"
    using scores_numeric [of validations] by blast
  from sc st have "\<forall>v\<in>set validations. wf_validation v"
    by (simp add: wf_validation_def)
  with docs show "list_all wf_document documents \<and> list_all wf_validation validations"
    by (simp add: list_all_iff)
qed

text \<open>
  Claim C1, as stated: with an empty document list and a non-empty list of validations
  that carry scores, the returned overall score is 0.4 times the mean validation score.
  The code does otherwise: without documents it sets the overall score to 0 and leaves
  the validation scores out. For one validation with score 1 it returns 0, where the
  formula of the specification gives 0.4.
\<close>

theorem no_documents_score_ignores_validations:
  "fst (calculate_scores offline_agent [] [example_validation 1 ''passed'' ''0123456789abcdef''])
     = Inr \<lparr>overall_score = Finite 0, compliant_count = 0, status = ''non_compliant'',
            all_issues = [''Missing commercial registration'', ''Missing national id'',
                          ''Missing bank statement''],
            all_recommendations = [''Provide commercial registration'', ''Provide national id'',
                                   ''Provide bank statement'']\<rparr>
   \<and> spec_document_compliance_rate [] = 0
   \<and> spec_overall_score [] [example_validation 1 ''passed'' ''0123456789abcdef''] = 4 / 10"
  by (simp add: calculate_scores_def example_validation_def List.map_filter_simps
        dict_item_def required_types_def replace_underscore_def spec_mean_validation_score_def
        spec_overall_score_def spec_document_compliance_rate_def py_sum_def
        round_double_literals)

text \<open>
  Claim C1, amended: with an empty document list and well-formed validations (each
  score a number), the document compliance rate is 0, and the scoring returns the
  overall score 0 with status \<open>non_compliant\<close> and no compliant document, whatever the
  validation scores are.
\<close>

theorem no_documents_score_zero:
  assumes "\<forall>v\<in>set validations. wf_validation v"
  shows "\<exists>r. fst (calculate_scores self [] validations) = Inr r
             \<and> spec_document_compliance_rate [] = 0
             \<and> overall_score r = Finite 0 \<and> compliant_count r = 0
             \<and> status r = ''non_compliant''"
  using calculate_scores_wf [of "[]" validations self] assms
  by (simp add: scores_of_def Let_def spec_document_compliance_rate_def float_status_def
        round_double_literals)

theorem no_documents_score_zero_witness:
  "list_all wf_validation example_validations
   \<and> (\<exists>r. fst (calculate_scores offline_agent [] example_validations) = Inr r
          \<and> overall_score r = Finite 0 \<and> compliant_count r = 0
          \<and> status r = ''non_compliant'')"
proof -
  have wf: "\<forall>v\<in>set example_validations. wf_validation v"
    by (simp add: example_validations_def)
  from no_documents_score_zero [OF wf, of offline_agent] wf
  show ?thesis by (auto simp: list_all_iff)
qed

lemma twelve_documents_counts:
  "length twelve_documents = 12" "length (filter is_compliant twelve_documents) = 11"
  "twelve_documents \<noteq> []" "\<forall>d\<in>set twelve_documents. wf_document d"
  by (simp_all add: twelve_documents_def is_compliant_def example_document_def dict_get_def
        wf_document_def)

lemma example_documents_counts:
  "length example_documents = 3" "length (filter is_compliant example_documents) = 2"
  "example_documents \<noteq> []" "\<forall>d\<in>set example_documents. wf_document d"
  by (simp_all add: example_documents_def is_compliant_def example_document_def dict_get_def
        wf_document_def)

text \<open>
  Claim C3, as stated: the returned overall score is 0.6 times the share of compliant
  documents plus 0.4 times the mean validation score, and the status follows from it.
  The code computes with floats and rounds after every operation. For twelve documents
  of which eleven are compliant and one validation with the score 0.625, which is a
  float, the formula gives exactly 0.8 and so \<open>compliant\<close>; the code returns the float
  below 0.8 and \<open>partially_compliant\<close>.
\<close>

theorem rounded_score_misses_threshold:
  "round_double (5 / 8) = Finite (5 / 8)
   \<and> length twelve_documents = 12 \<and> length (filter is_compliant twelve_documents) = 11
   \<and> spec_overall_score twelve_documents [example_validation (5 / 8) ''passed'' ''d1''] = 8 / 10
   \<and> spec_status (8 / 10) = ''compliant''
   \<and> map_sum (\<lambda>e. e) (\<lambda>r. (overall_score r, status r))
        (fst (calculate_scores offline_agent twelve_documents
                [example_validation (5 / 8) ''passed'' ''d1'']))
       = Inr (Finite (7205759403792793 / 9007199254740992), ''partially_compliant'')
   \<and> (7205759403792793 / 9007199254740992 :: rat) < 8 / 10"
proof -
  let ?v = "[example_validation (5 / 8) ''passed'' ''d1'']"
  have s: "round_double (5 / 8) = Finite (5 / 8)"
    by (simp add: round_double_binade)
  have sc: "List.map_filter (\<lambda>v. Option.bind (map_of v ''score'') as_number) ?v
              = [PyFloat (Finite (5 / 8))]"
    "List.map_filter (\<lambda>v. Option.bind (map_of v ''score'') exact_value) ?v = [5 / 8]"
    by (simp_all add: example_validation_def List.map_filter_simps s)
  have spec: "spec_overall_score twelve_documents ?v = 8 / 10"
    unfolding spec_overall_score_def spec_mean_validation_score_def sc
    by (simp add: spec_document_compliance_rate_def twelve_documents_counts)
  have mean: "float_mean_validation_score ?v = Finite (5 / 8)"
    unfolding float_mean_validation_score_def sc
    by (simp add: round_double_literals round_double_binade)
  have rate: "float_compliance_rate twelve_documents
                = Finite (8256599316845909 / 9007199254740992)"
    by (simp add: float_compliance_rate_def twelve_documents_counts round_double_binade)
  have overall: "float_overall_score twelve_documents ?v
                   = Finite (7205759403792793 / 9007199254740992)"
    by (simp add: float_overall_score_def mean rate round_double_literals round_double_binade)
  have st: "float_status (Finite (7205759403792793 / 9007199254740992)) = ''partially_compliant''"
    by (simp add: float_status_def round_double_literals)
  have "calculate_scores offline_agent twelve_documents ?v
          = (Inr (scores_of twelve_documents ?v), offline_agent)"
    by (rule calculate_scores_wf) (simp_all add: twelve_documents_counts)
  then have res: "map_sum (\<lambda>e. e) (\<lambda>r. (overall_score r, status r))
        (fst (calculate_scores offline_agent twelve_documents ?v))
       = Inr (Finite (7205759403792793 / 9007199254740992), ''partially_compliant'')"
    by (simp add: scores_of_def Let_def twelve_documents_counts overall st)
  have "spec_status (8 / 10) = ''compliant''" by (simp add: spec_status_def)
  with s spec res twelve_documents_counts show ?thesis by simp
qed

text \<open>
  Claim C3, amended: for a non-empty list of well-formed documents and well-formed
  validations, the scoring returns the value of 0.6 times the share of compliant
  documents plus 0.4 times the mean validation score (0 when no validation has a score)
  as floating-point arithmetic gives it, each operation rounded to the nearest float;
  the status is \<open>compliant\<close> when the returned score is at least the float nearest 0.8,
  \<open>partially_compliant\<close> when it is below that and at least the float nearest 0.6, and
  \<open>non_compliant\<close> otherwise. In particular, three documents of which two are compliant
  and validations with the scores 0.9 and 0.8 give the float nearest 0.74 and
  \<open>partially_compliant\<close>.
\<close>

theorem overall_score_formula_and_status:
  assumes "documents \<noteq> []"
      and "\<forall>d\<in>set documents. wf_document d"
      and "\<forall>v\<in>set validations. wf_validation v"
  shows "\<exists>r. fst (calculate_scores self documents validations) = Inr r
           \<and> overall_score r =
               float_add
                 (float_mul (float_compliance_rate documents) (round_double (6 / 10)))
                 (float_mul (float_mean_validation_score validations) (round_double (4 / 10)))
           \<and> (float_ge (overall_score r) (round_double (8 / 10)) \<longrightarrow> status r = ''compliant'')
           \<and> (float_ge (overall_score r) (round_double (6 / 10))
                \<and> \<not> float_ge (overall_score r) (round_double (8 / 10))
                \<longrightarrow> status r = ''partially_compliant'')
           \<and> (\<not> float_ge (overall_score r) (round_double (6 / 10))
                \<longrightarrow> status r = ''non_compliant'')
           \<and> (length documents = 3 \<and> length (filter is_compliant documents) = 2
                \<and> List.map_filter (\<lambda>v. map_of v ''score'') validations
                    = [PNum (round_double (9 / 10)), PNum (round_double (8 / 10))]
                \<longrightarrow> overall_score r = round_double (74 / 100)
                    \<and> status r = ''partially_compliant'')"
proof -
  let ?r = "scores_of documents validations"
  have res: "fst (calculate_scores self documents validations) = Inr ?r"
    using calculate_scores_wf [OF assms(2,3), of self] by simp
  have o: "overall_score ?r = float_overall_score documents validations"
    and s: "status ?r = float_status (float_overall_score documents validations)"
    using assms(1) by (simp_all add: scores_of_def Let_def)
  have ex: "float_overall_score documents validations = round_double (74 / 100)
            \<and> float_status (float_overall_score documents validations) = ''partially_compliant''"
    if "length documents = 3" "length (filter is_compliant documents) = 2"
       "List.map_filter (\<lambda>v. map_of v ''score'') validations
          = [PNum (round_double (9 / 10)), PNum (round_double (8 / 10))]"
  proof -
    have "List.map_filter (\<lambda>v. Option.bind (map_of v ''score'') as_number) validations
            = map (the \<circ> as_number) (List.map_filter (\<lambda>v. map_of v ''score'') validations)"
      using scores_wf [OF assms(3)] by simp
    also have "\<dots> = [PyFloat (round_double (9 / 10)), PyFloat (round_double (8 / 10))]"
      by (simp add: that(3))
    finally have "float_mean_validation_score validations
                    = Finite (7656119366529844 / 9007199254740992)"
      by (simp add: float_mean_validation_score_def round_double_binade)
    moreover have "float_compliance_rate documents
                     = Finite (6004799503160661 / 9007199254740992)"
      by (simp add: float_compliance_rate_def that(1,2) round_double_binade)
    ultimately have "float_overall_score documents validations
                       = Finite (6665327448508334 / 9007199254740992)"
      by (simp add: float_overall_score_def round_double_literals round_double_binade)
    moreover have "round_double (74 / 100) = Finite (6665327448508334 / 9007199254740992)"
      by (simp add: round_double_binade)
    ultimately show ?thesis
      by (simp add: float_status_def round_double_literals)
  qed
  show ?thesis
  proof (intro exI [of _ ?r] conjI)
    show "fst (calculate_scores self documents validations) = Inr ?r" by (rule res)
    show "overall_score ?r =
               float_add
                 (float_mul (float_compliance_rate documents) (round_double (6 / 10)))
                 (float_mul (float_mean_validation_score validations) (round_double (4 / 10)))"
      unfolding o by (simp add: float_overall_score_def)
    show "float_ge (overall_score ?r) (round_double (8 / 10)) \<longrightarrow> status ?r = ''compliant''"
      unfolding o s by (simp add: float_status_def)
    show "float_ge (overall_score ?r) (round_double (6 / 10))
                \<and> \<not> float_ge (overall_score ?r) (round_double (8 / 10))
                \<longrightarrow> status ?r = ''partially_compliant''"
      unfolding o s by (simp add: float_status_def)
    show "\<not> float_ge (overall_score ?r) (round_double (6 / 10))
                \<longrightarrow> status ?r = ''non_compliant''"
      unfolding o s
      by (cases "float_ge (float_overall_score documents validations) (round_double (8 / 10))")
         (simp_all add: float_status_def round_double_literals,
          cases "float_overall_score documents validations", simp_all)
    show "length documents = 3 \<and> length (filter is_compliant documents) = 2
                \<and> List.map_filter (\<lambda>v. map_of v ''score'') validations
                    = [PNum (round_double (9 / 10)), PNum (round_double (8 / 10))]
                \<longrightarrow> overall_score ?r = round_double (74 / 100)
                    \<and> status ?r = ''partially_compliant''"
      unfolding o s using ex by blast
  qed
qed

theorem overall_score_formula_and_status_witness:
  "example_documents \<noteq> [] \<and> list_all wf_document example_documents
   \<and> list_all wf_validation example_validations
   \<and> length example_documents = 3 \<and> length (filter is_compliant example_documents) = 2
   \<and> List.map_filter (\<lambda>v. map_of v ''score'') example_validations
       = [PNum (round_double (9 / 10)), PNum (round_double (8 / 10))]
   \<and> round_double (74 / 100) = Finite (6665327448508334 / 9007199254740992)
   \<and> (\<exists>r. fst (calculate_scores offline_agent example_documents example_validations) = Inr r
          \<and> overall_score r = Finite (6665327448508334 / 9007199254740992)
          \<and> status r = ''partially_compliant'')"
proof -
  note a = example_documents_counts(3) and b = example_documents_counts(4)
  have c: "\<forall>v\<in>set example_validations. wf_validation v" by (simp add: example_validations_def)
  have d: "length example_documents = 3 \<and> length (filter is_compliant example_documents) = 2
           \<and> List.map_filter (\<lambda>v. map_of v ''score'') example_validations
               = [PNum (round_double (9 / 10)), PNum (round_double (8 / 10))]"
    by (simp add: example_documents_counts example_validations_def example_validation_def
          List.map_filter_simps)
  have e: "round_double (74 / 100) = Finite (6665327448508334 / 9007199254740992)"
    by (simp add: round_double_binade)
  from overall_score_formula_and_status [OF a b c, of offline_agent] d
  obtain r where "fst (calculate_scores offline_agent example_documents example_validations) = Inr r"
    "overall_score r = round_double (74 / 100)" "status r = ''partially_compliant''" by blast
  with a b c d e show ?thesis by (auto simp: list_all_iff)
qed

text \<open>
  Claim C8: on well-formed inputs, for each of the three mandatory document types
  (commercial registration, national id, bank statement) that no document has, the
  returned issues contain \<open>Missing\<close> followed by the type's name and the returned
  recommendations contain \<open>Provide\<close> followed by it; and for each validation whose
  status is not \<open>passed\<close>, the issues contain a failed-validation entry that names
  the first eight characters of its document identifier.
\<close>

theorem issues_and_recommendations:
  assumes "\<forall>d\<in>set documents. wf_document d"
      and "\<forall>v\<in>set validations. wf_validation v"
  shows "\<exists>r. fst (calculate_scores self documents validations) = Inr r
           \<and> (\<forall>t\<in>set required_types.
                 (\<forall>d\<in>set documents. map_of d ''type'' \<noteq> Some (PStr t)) \<longrightarrow>
                   (''Missing '' @ replace_underscore t) \<in> set (all_issues r)
                   \<and> (''Provide '' @ replace_underscore t) \<in> set (all_recommendations r))
           \<and> (\<forall>v\<in>set validations.
                 map_of v ''status'' \<noteq> Some (PStr ''passed'') \<longrightarrow>
                   (\<exists>i. map_of v ''document_id'' = Some (PStr i)
                      \<and> (''Document '' @ take 8 i @ '' validation failed'') \<in> set (all_issues r)))
           \<and> map replace_underscore required_types
                = [''commercial registration'', ''national id'', ''bank statement'']"
proof -
  let ?r = "scores_of documents validations"
  have res: "fst (calculate_scores self documents validations) = Inr ?r"
    using calculate_scores_wf [OF assms, of self] by simp
  have iss: "all_issues ?r =
            map (\<lambda>t. ''Missing '' @ replace_underscore t) (missing_types documents)
            @ map (\<lambda>v. ''Document '' @ document_id_prefix v @ '' validation failed'')
                (filter failed_validation validations)"
    and rec: "all_recommendations ?r =
            map (\<lambda>t. ''Provide '' @ replace_underscore t) (missing_types documents)"
    by (simp_all add: scores_of_def Let_def)
  have miss: "t \<in> set (missing_types documents)"
    if "t \<in> set required_types" "\<forall>d\<in>set documents. map_of d ''type'' \<noteq> Some (PStr t)" for t
    using that by (simp add: missing_types_def list_all_iff)
  have failed: "\<exists>i. map_of v ''document_id'' = Some (PStr i)
                  \<and> (''Document '' @ take 8 i @ '' validation failed'')
                       \<in> (\<lambda>v. ''Document '' @ document_id_prefix v @ '' validation failed'')
                           ` set (filter failed_validation validations)"
    if "v \<in> set validations" "map_of v ''status'' \<noteq> Some (PStr ''passed'')" for v
  proof -
    from that(1) assms(2) have "wf_validation v" by blast
    with that(2) obtain i where i: "map_of v ''document_id'' = Some (PStr i)"
      by (auto simp: wf_validation_def split: option.splits pyval.splits)
    have "v \<in> set (filter failed_validation validations)"
      using that by (simp add: failed_validation_def)
    then have "(''Document '' @ document_id_prefix v @ '' validation failed'')
                 \<in> (\<lambda>v. ''Document '' @ document_id_prefix v @ '' validation failed'')
                     ` set (filter failed_validation validations)"
      by (rule imageI)
    with i show ?thesis by (simp add: document_id_prefix_def)
  qed
  show ?thesis
  proof (intro exI [of _ ?r] conjI ballI impI)
    show "fst (calculate_scores self documents validations) = Inr ?r" by (rule res)
  next
    fix t assume "t \<in> set required_types"
      "\<forall>d\<in>set documents. map_of d ''type'' \<noteq> Some (PStr t)"
    then have "t \<in> set (missing_types documents)" by (rule miss)
    then show "(''Missing '' @ replace_underscore t) \<in> set (all_issues ?r)"
      and "(''Provide '' @ replace_underscore t) \<in> set (all_recommendations ?r)"
      unfolding iss rec by auto
  next
    fix v assume "v \<in> set validations" "map_of v ''status'' \<noteq> Some (PStr ''passed'')"
    from failed [OF this]
    show "\<exists>i. map_of v ''document_id'' = Some (PStr i)
             \<and> (''Document '' @ take 8 i @ '' validation failed'') \<in> set (all_issues ?r)"
      unfolding iss by auto
  next
    show "map replace_underscore required_types
                = [''commercial registration'', ''national id'', ''bank statement'']"
      by (simp add: required_types_def replace_underscore_def)
  qed
qed

theorem issues_and_recommendations_witness:
  "list_all wf_document example_documents \<and> list_all wf_validation example_failed_validations
   \<and> ''bank_statement'' \<in> set required_types
   \<and> list_all (\<lambda>d. map_of d ''type'' \<noteq> Some (PStr ''bank_statement'')) example_documents
   \<and> example_validation (3 / 10) ''failed'' ''0123456789abcdef'' \<in> set example_failed_validations
   \<and> map_of (example_validation (3 / 10) ''failed'' ''0123456789abcdef'') ''status''
        \<noteq> Some (PStr ''passed'')
   \<and> (\<exists>r. fst (calculate_scores offline_agent example_documents example_failed_validations) = Inr r
          \<and> ''Missing bank statement'' \<in> set (all_issues r)
          \<and> ''Provide bank statement'' \<in> set (all_recommendations r)
          \<and> ''Document 01234567 validation failed'' \<in> set (all_issues r))"
proof -
  let ?v = "example_validation (3 / 10) ''failed'' ''0123456789abcdef''"
  have b: "\<forall>d\<in>set example_documents. wf_document d" by (simp add: example_documents_def)
  have c: "\<forall>v\<in>set example_failed_validations. wf_validation v"
    by (simp add: example_failed_validations_def)
  have t: "''bank_statement'' \<in> set required_types" by (simp add: required_types_def)
  have m: "\<forall>d\<in>set example_documents. map_of d ''type'' \<noteq> Some (PStr ''bank_statement'')"
    by (simp add: example_documents_def example_document_def)
  have v: "?v \<in> set example_failed_validations"
    by (simp add: example_failed_validations_def)
  have f: "map_of ?v ''status'' \<noteq> Some (PStr ''passed'')"
    and i: "map_of ?v ''document_id'' = Some (PStr ''0123456789abcdef'')"
    by (simp_all add: example_validation_def)
  from issues_and_recommendations [OF b c, of offline_agent]
  obtain r where r: "fst (calculate_scores offline_agent example_documents example_failed_validations) = Inr r"
    and r1: "\<forall>t\<in>set required_types.
                 (\<forall>d\<in>set example_documents. map_of d ''type'' \<noteq> Some (PStr t)) \<longrightarrow>
                   (''Missing '' @ replace_underscore t) \<in> set (all_issues r)
                   \<and> (''Provide '' @ replace_underscore t) \<in> set (all_recommendations r)"
    and r2: "\<forall>v\<in>set example_failed_validations.
                 map_of v ''status'' \<noteq> Some (PStr ''passed'') \<longrightarrow>
                   (\<exists>i. map_of v ''document_id'' = Some (PStr i)
                      \<and> (''Document '' @ take 8 i @ '' validation failed'') \<in> set (all_issues r))"
    by blast
  from r1 t m have "(''Missing '' @ replace_underscore ''bank_statement'') \<in> set (all_issues r)"
    and "(''Provide '' @ replace_underscore ''bank_statement'') \<in> set (all_recommendations r)"
    by blast+
  then have m1: "''Missing bank statement'' \<in> set (all_issues r)"
    and m2: "''Provide bank statement'' \<in> set (all_recommendations r)"
    by (simp_all add: replace_underscore_def)
  from r2 v f obtain j where "map_of ?v ''document_id'' = Some (PStr j)"
    and "(''Document '' @ take 8 j @ '' validation failed'') \<in> set (all_issues r)" by blast
  with i have m3: "''Document 01234567 validation failed'' \<in> set (all_issues r)" by simp
  have b': "list_all wf_document example_documents"
    and c': "list_all wf_validation example_failed_validations"
    and m': "list_all (\<lambda>d. map_of d ''type'' \<noteq> Some (PStr ''bank_statement'')) example_documents"
    using b c m by (simp_all only: list_all_iff)
  from r m1 m2 m3 have "\<exists>r. fst (calculate_scores offline_agent example_documents
                             example_failed_validations) = Inr r
          \<and> ''Missing bank statement'' \<in> set (all_issues r)
          \<and> ''Provide bank statement'' \<in> set (all_recommendations r)
          \<and> ''Document 01234567 validation failed'' \<in> set (all_issues r)" by blast
  with b' c' t m' v f show ?thesis by (intro conjI)
qed

text \<open>
  Claim C9: the scoring is deterministic and free of side effects. Its result depends
  on the documents and the validations alone, not on the agent it is called on, so two
  calls with the same inputs return the same dictionary (or raise the same exception);
  and the agent after the call is the agent before it.
\<close>

theorem calculate_scores_deterministic_and_pure:
  "fst (calculate_scores self documents validations)
     = fst (calculate_scores self' documents validations)
   \<and> snd (calculate_scores self documents validations) = self"
  using calculate_scores_agent(1) [of self documents validations self']
    calculate_scores_agent(2) [of self documents validations]
  by simp

section \<open>Stored summaries\<close>

lemma map_update_first:
  "\<forall>x. f (g x) = f x \<Longrightarrow> map f (update_first P g xs) = map f xs"
  by (induction xs) auto

lemma filter_update_first:
  "\<forall>x. P (g x) = P x \<Longrightarrow>
   filter P (update_first P g xs) = (case filter P xs of [] \<Rightarrow> [] | y # ys \<Rightarrow> g y # ys)"
  by (induction xs) auto

lemma cs_customer_id_update_existing [simp]:
  "cs_customer_id (update_existing now s row) = cs_customer_id row"
  by (simp add: update_existing_def)

lemma cs_id_update_existing [simp]: "cs_id (update_existing now s row) = cs_id row"
  by (simp add: update_existing_def)

lemma distinct_filter_length:
  "distinct (map f xs) \<longleftrightarrow> (\<forall>c. length (filter (\<lambda>x. f x = c) xs) \<le> 1)"
proof (induction xs)
  case Nil
  then show ?case by simp
next
  case (Cons x xs)
  show ?case
  proof
    assume d: "distinct (map f (x # xs))"
    then have nx: "f x \<notin> f ` set xs" and dx: "distinct (map f xs)" by simp_all
    from nx have "\<forall>y\<in>set xs. f y \<noteq> f x" by (metis imageI)
    then have "filter (\<lambda>y. f y = f x) xs = []"
      by (simp add: filter_empty_conv)
    with dx Cons.IH show "\<forall>c. length (filter (\<lambda>y. f y = c) (x # xs)) \<le> 1"
      by auto
  next
    assume a: "\<forall>c. length (filter (\<lambda>y. f y = c) (x # xs)) \<le> 1"
    then have "length (filter (\<lambda>y. f y = f x) (x # xs)) \<le> 1" by blast
    then have "filter (\<lambda>y. f y = f x) xs = []" by simp
    then have "\<forall>y\<in>set xs. f y \<noteq> f x"
      by (simp add: filter_empty_conv)
    then have nx: "f x \<notin> f ` set xs" by (metis imageE)
    have "\<forall>c. length (filter (\<lambda>y. f y = c) xs) \<le> 1"
    proof
      fix c
      from a have "length (filter (\<lambda>y. f y = c) (x # xs)) \<le> 1" by blast
      then show "length (filter (\<lambda>y. f y = c) xs) \<le> 1"
        by (simp split: if_splits)
    qed
    with Cons.IH have "distinct (map f xs)" by simp
    with nx show "distinct (map f (x # xs))" by simp
  qed
qed

text \<open>What \<open>_store_summary\<close> does to the rows of the table.\<close>

lemma summary_rows_store_summary:
  "summary_rows (store_summary env self s) =
     (if db_session self = None \<or> summary_store_fails env then summary_rows self
      else if customer_id s \<in> cs_customer_id ` set (summary_rows self)
      then update_first (\<lambda>row. cs_customer_id row = customer_id s)
             (update_existing (clock env) s) (summary_rows self)
      else if summary_id s \<in> cs_id ` set (summary_rows self) then summary_rows self
      else summary_rows self @ [new_summary (clock env) s])"
proof (cases "db_session self")
  case None
  then show ?thesis
    by (simp add: store_summary_def summary_rows_def split: option.splits)
next
  case (Some db)
  have "(\<exists>row \<in> set (tbl_compliance_summaries db). cs_customer_id row = customer_id s)
          = (customer_id s \<in> cs_customer_id ` set (tbl_compliance_summaries db))"
    by force
  with Some show ?thesis
    by (simp add: store_summary_def summary_rows_def)
qed

lemma distinct_store_summary:
  assumes "distinct (map cs_customer_id (summary_rows self))"
  shows "distinct (map cs_customer_id (summary_rows (store_summary env self s)))"
  using assms
  by (auto simp: summary_rows_store_summary map_update_first new_summary_def)

lemma summary_rows_save_to_cache [simp]:
  "summary_rows (save_to_cache self now k v) = summary_rows self"
  by (simp add: save_to_cache_def summary_rows_def split: option.splits)

lemma summary_rows_send_events [simp]:
  "summary_rows (summary_send_events self s) = summary_rows self"
  by (simp add: summary_send_events_def summary_rows_def)

text \<open>
  The three ways a call of \<open>generate_summary\<close> ends: with the cached summary, with the
  exception of the scoring, or with a new summary of the customer that it has handed to
  \<open>_store_summary\<close>, to the cache and to the bus.
\<close>

lemma generate_summary_cases:
  "(\<exists>cached. get_from_cache self (clock env) (''summary:'' @ cid) = Some cached
       \<and> generate_summary md5 env self cid = (Inr cached, self))
   \<or> (\<exists>e. generate_summary md5 env self cid = (Inl e, self))
   \<or> (\<exists>s self2. get_from_cache self (clock env) (''summary:'' @ cid) = None
          \<and> customer_id s = cid
          \<and> summary_id s = md5 (cid @ ''_'' @ now_text env)
          \<and> self2 = store_summary env self s
          \<and> generate_summary md5 env self cid =
               (Inr s, summary_send_events
                  (if redis_client self2 \<noteq> None
                   then save_to_cache self2 (clock env) (''summary:'' @ cid) s else self2) s))"
proof (cases "get_from_cache self (clock env) (''summary:'' @ cid)")
  case (Some cached)
  then have "redis_client self \<noteq> None"
    by (auto simp: get_from_cache_def split: option.splits)
  with Some show ?thesis
    by (simp add: generate_summary_def)
next
  case None
  obtain res self1 where cs: "calculate_scores self (get_customer_documents env self cid)
                (get_validation_results env self cid) = (res, self1)"
    by (cases "calculate_scores self (get_customer_documents env self cid)
                (get_validation_results env self cid)")
  then have self1: "self1 = self"
    using calculate_scores_agent(2)
      [of self "get_customer_documents env self cid" "get_validation_results env self cid"]
    by simp
  show ?thesis
  proof (cases res)
    case (Inl e)
    with None cs self1 show ?thesis
      by (simp add: generate_summary_def Let_def)
  next
    case (Inr sc)
    define s where "s = \<lparr>summary_id = md5 (cid @ ''_'' @ now_text env),
                               customer_id = cid,
                               total_documents = length (get_customer_documents env self cid),
                               validated_documents = length (get_validation_results env self cid),
                               compliant_documents = compliant_count sc,
                               overall_compliance_score = overall_score sc,
                               compliance_status = status sc,
                               summary_text = ai_summary_text env,
                               issues = all_issues sc,
                               recommendations = all_recommendations sc,
                               generated_at = now_iso env\<rparr>"
    have "generate_summary md5 env self cid =
               (Inr s, summary_send_events
                  (if redis_client (store_summary env self s) \<noteq> None
                   then save_to_cache (store_summary env self s) (clock env) (''summary:'' @ cid) s
                   else store_summary env self s) s)"
      using None cs self1 Inr unfolding s_def
      by (simp add: generate_summary_def Let_def)
    moreover have "customer_id s = cid" "summary_id s = md5 (cid @ ''_'' @ now_text env)"
      by (simp_all add: s_def)
    ultimately show ?thesis using None by blast
  qed
qed

lemma summary_rows_generate_summary:
  "summary_rows (snd (generate_summary md5 env self cid)) = summary_rows self
   \<or> (\<exists>s. customer_id s = cid
          \<and> summary_rows (snd (generate_summary md5 env self cid))
              = summary_rows (store_summary env self s))"
  using generate_summary_cases [of self env cid md5]
  by (elim disjE exE conjE) (simp, simp, rule disjI2, auto)

lemma distinct_generate_summary:
  assumes "distinct (map cs_customer_id (summary_rows self))"
  shows "distinct (map cs_customer_id (summary_rows (snd (generate_summary md5 env self cid))))"
  using summary_rows_generate_summary [of md5 env self cid] assms distinct_store_summary
  by (metis (no_types, lifting))

lemma distinct_generate_summaries:
  "distinct (map cs_customer_id (summary_rows self)) \<Longrightarrow>
   distinct (map cs_customer_id (summary_rows (generate_summaries md5 self calls)))"
proof (induction calls arbitrary: self)
  case Nil
  then show ?case by simp
next
  case (Cons call calls)
  obtain env cid where call: "call = (env, cid)" by (cases call)
  from Cons.prems have "distinct (map cs_customer_id
      (summary_rows (snd (generate_summary md5 env self cid))))"
    by (rule distinct_generate_summary)
  then show ?case using Cons.IH call by simp
qed

lemma summaries_of_store_summary:
  assumes "db_session self \<noteq> None" "\<not> summary_store_fails env"
      and "summaries_of self (customer_id s) = [old]"
  shows "summaries_of (store_summary env self s) (customer_id s) = [update_existing (clock env) s old]"
    and "map cs_id (summary_rows (store_summary env self s)) = map cs_id (summary_rows self)"
proof -
  from assms(3) have "old \<in> set (filter (\<lambda>row. cs_customer_id row = customer_id s) (summary_rows self))"
    by (simp add: summaries_of_def)
  then have ex: "customer_id s \<in> cs_customer_id ` set (summary_rows self)"
    by force
  with assms(1,2) have rows: "summary_rows (store_summary env self s) =
      update_first (\<lambda>row. cs_customer_id row = customer_id s)
             (update_existing (clock env) s) (summary_rows self)"
    by (auto simp: summary_rows_store_summary)
  show "summaries_of (store_summary env self s) (customer_id s) = [update_existing (clock env) s old]"
    using assms(3) unfolding summaries_of_def rows
    by (simp add: filter_update_first)
  show "map cs_id (summary_rows (store_summary env self s)) = map cs_id (summary_rows self)"
    unfolding rows by (simp add: map_update_first)
qed

lemma ids_store_summary_existing:
  assumes "summaries_of self (customer_id s) \<noteq> []"
  shows "map cs_id (summary_rows (store_summary env self s)) = map cs_id (summary_rows self)"
proof -
  from assms obtain row where "row \<in> set (summary_rows self)" "cs_customer_id row = customer_id s"
    by (auto simp: summaries_of_def filter_empty_conv)
  then have "customer_id s \<in> cs_customer_id ` set (summary_rows self)"
    by force
  then show ?thesis
    by (simp add: summary_rows_store_summary map_update_first)
qed

text \<open>
  Claim C2: if the table holds at most one summary per customer to begin with (its
  unique column sees to that), it does so after any sequence of \<open>generate_summary\<close>
  calls executed one after the other. Where a customer has a row, storing a summary
  for the customer overwrites that row and leaves the identifiers in the table as they
  are; no call of \<open>generate_summary\<close> for such a customer adds a row, and a call that
  computes a summary with the database working leaves the customer's row updated with it.
\<close>

theorem at_most_one_summary_per_customer:
  assumes "\<forall>c. length (summaries_of self c) \<le> 1"
  shows "(\<forall>c. length (summaries_of (generate_summaries md5 self calls) c) \<le> 1)
       \<and> (\<forall>env s old.
             db_session self \<noteq> None \<and> \<not> summary_store_fails env
             \<and> summaries_of self (customer_id s) = [old]
             \<longrightarrow> summaries_of (store_summary env self s) (customer_id s)
                   = [update_existing (clock env) s old]
                 \<and> map cs_id (summary_rows (store_summary env self s))
                   = map cs_id (summary_rows self))
       \<and> (\<forall>env cid.
             summaries_of self cid \<noteq> []
             \<longrightarrow> map cs_id (summary_rows (snd (generate_summary md5 env self cid)))
                   = map cs_id (summary_rows self))
       \<and> (\<forall>env cid s self' old.
             generate_summary md5 env self cid = (Inr s, self')
             \<and> summary_cache_miss env self cid \<and> \<not> summary_store_fails env
             \<and> summaries_of self cid = [old]
             \<longrightarrow> summaries_of self' cid = [update_existing (clock env) s old])"
proof (intro conjI allI impI)
  fix c
  from assms have "distinct (map cs_customer_id (summary_rows self))"
    unfolding summaries_of_def by (simp add: distinct_filter_length)
  then have "distinct (map cs_customer_id (summary_rows (generate_summaries md5 self calls)))"
    by (rule distinct_generate_summaries)
  then show "length (summaries_of (generate_summaries md5 self calls) c) \<le> 1"
    unfolding summaries_of_def by (simp add: distinct_filter_length)
next
  fix env :: summary_env and s :: summary and old
  assume a: "db_session self \<noteq> None \<and> \<not> summary_store_fails env
             \<and> summaries_of self (customer_id s) = [old]"
  then show "summaries_of (store_summary env self s) (customer_id s)
                   = [update_existing (clock env) s old]"
    using summaries_of_store_summary(1) by blast
  from a show "map cs_id (summary_rows (store_summary env self s)) = map cs_id (summary_rows self)"
    using summaries_of_store_summary(2) by blast
next
  fix env :: summary_env and cid
  assume ne: "summaries_of self cid \<noteq> []"
  from summary_rows_generate_summary [of md5 env self cid]
  show "map cs_id (summary_rows (snd (generate_summary md5 env self cid)))
          = map cs_id (summary_rows self)"
  proof
    assume "summary_rows (snd (generate_summary md5 env self cid)) = summary_rows self"
    then show ?thesis by simp
  next
    assume "\<exists>s. customer_id s = cid
          \<and> summary_rows (snd (generate_summary md5 env self cid))
              = summary_rows (store_summary env self s)"
    then obtain s where s: "customer_id s = cid"
      "summary_rows (snd (generate_summary md5 env self cid))
              = summary_rows (store_summary env self s)" by blast
    with ne have "summaries_of self (customer_id s) \<noteq> []" by simp
    from ids_store_summary_existing [OF this, of env] s(2) show ?thesis by simp
  qed
next
  fix env :: summary_env and cid and s :: summary and self' old
  assume a: "generate_summary md5 env self cid = (Inr s, self')
             \<and> summary_cache_miss env self cid \<and> \<not> summary_store_fails env
             \<and> summaries_of self cid = [old]"
  then have miss: "get_from_cache self (clock env) (''summary:'' @ cid) = None"
    by (simp add: summary_cache_miss_def)
  from a have db: "db_session self \<noteq> None"
    by (cases "db_session self") (simp_all add: summaries_of_def summary_rows_def)
  from generate_summary_cases [of self env cid md5] miss a
  obtain s' where s': "customer_id s' = cid"
    "generate_summary md5 env self cid =
               (Inr s', summary_send_events
                  (if redis_client (store_summary env self s') \<noteq> None
                   then save_to_cache (store_summary env self s') (clock env) (''summary:'' @ cid) s'
                   else store_summary env self s') s')"
    by auto
  with a have eq: "s' = s" and self': "summary_rows self' = summary_rows (store_summary env self s)"
    by auto
  from a s' eq have "summaries_of self (customer_id s) = [old]" by simp
  from summaries_of_store_summary(1) [OF db _ this, of env] a
  have "summaries_of (store_summary env self s) (customer_id s) = [update_existing (clock env) s old]"
    by simp
  with self' s' eq show "summaries_of self' cid = [update_existing (clock env) s old]"
    by (simp add: summaries_of_def)
qed

lemma summary_rows_first_call:
  "summary_rows (snd (generate_summary (\<lambda>s. s) (example_env 0 ''t1'') database_agent ''C1''))
     = [\<lparr>cs_id = ''C1_t1'', cs_customer_id = ''C1'', cs_total_documents = 0,
         cs_compliant_documents = 0, cs_overall_compliance_score = Finite 0,
         cs_compliance_status = ''non_compliant'', cs_summary_text = ''Compliance Summary'',
         cs_issues_summary = [''Missing commercial registration'', ''Missing national id'',
                              ''Missing bank statement''],
         cs_recommendations_summary = [''Provide commercial registration'',
                                       ''Provide national id'', ''Provide bank statement''],
         cs_updated_at = 0\<rparr>]"
  by (simp add: generate_summary_def database_agent_def example_env_def empty_database_def
        get_from_cache_def get_customer_documents_def get_validation_results_def
        calculate_scores_def List.map_filter_simps required_types_def replace_underscore_def
        store_summary_def new_summary_def summary_send_events_def summary_rows_def
        round_double_literals)

theorem at_most_one_summary_per_customer_witness:
  "(\<forall>c. length (summaries_of
            (snd (generate_summary (\<lambda>s. s) (example_env 0 ''t1'') database_agent ''C1'')) c) \<le> 1)
   \<and> summaries_of
        (snd (generate_summary (\<lambda>s. s) (example_env 0 ''t1'') database_agent ''C1'')) ''C1'' \<noteq> []
   \<and> (\<forall>c. length (summaries_of
            (generate_summaries (\<lambda>s. s)
               (snd (generate_summary (\<lambda>s. s) (example_env 0 ''t1'') database_agent ''C1''))
               [(example_env 10 ''t2'', ''C1'')]) c) \<le> 1)
   \<and> map cs_id (summary_rows
        (generate_summaries (\<lambda>s. s)
           (snd (generate_summary (\<lambda>s. s) (example_env 0 ''t1'') database_agent ''C1''))
           [(example_env 10 ''t2'', ''C1'')])) = [''C1_t1'']"
proof -
  let ?a1 = "snd (generate_summary (\<lambda>s. s) (example_env 0 ''t1'') database_agent ''C1'')"
  have inv: "\<forall>c. length (summaries_of ?a1 c) \<le> 1"
    by (simp add: summaries_of_def summary_rows_first_call)
  have ne: "summaries_of ?a1 ''C1'' \<noteq> []"
    by (simp add: summaries_of_def summary_rows_first_call)
  from at_most_one_summary_per_customer
         [OF inv, of "\<lambda>s. s" "[(example_env 10 ''t2'', ''C1'')]"]
  have after: "\<forall>c. length (summaries_of
                 (generate_summaries (\<lambda>s. s) ?a1 [(example_env 10 ''t2'', ''C1'')]) c) \<le> 1"
    and ids: "\<forall>env cid. summaries_of ?a1 cid \<noteq> []
             \<longrightarrow> map cs_id (summary_rows (snd (generate_summary (\<lambda>s. s) env ?a1 cid)))
                   = map cs_id (summary_rows ?a1)"
    by blast+
  from ids ne have "map cs_id (summary_rows
      (snd (generate_summary (\<lambda>s. s) (example_env 10 ''t2'') ?a1 ''C1'')))
        = map cs_id (summary_rows ?a1)" by blast
  then have "map cs_id (summary_rows
        (generate_summaries (\<lambda>s. s) ?a1 [(example_env 10 ''t2'', ''C1'')])) = [''C1_t1'']"
    by (simp add: summary_rows_first_call)
  with inv ne after show ?thesis by blast
qed

section \<open>The in-memory fallback of the summary agent\<close>



text \<open>
  What \<open>__init__\<close> leaves: \<open>memory_storage\<close> exists exactly when the database set-up
  raised, and then there is no session.
\<close>

lemma init_storage_agent_memory:
  "memory_storage (init_storage_agent st) = (if database_setup_raises st then Some Map.empty else None)"
  "database_setup_raises st \<Longrightarrow> db_session (init_storage_agent st) = None"
  "redis_client (init_storage_agent st) = redis_ping st"
  by (cases "get_database_session st (snd (create_tables st (session_local st)))";
      simp add: init_storage_agent_def database_setup_raises_def)+


text \<open>No call of \<open>generate_summary\<close> creates \<open>memory_storage\<close> or a session.\<close>

lemma memory_storage_store_summary:
  assumes "memory_storage self = None"
  shows "memory_storage (store_summary env self s) = None"
proof (cases "db_session self")
  case None
  with assms show ?thesis by (simp add: store_summary_def)
next
  case (Some db)
  define c1 where
    "c1 \<longleftrightarrow> (\<exists>row\<in>set (tbl_compliance_summaries db). cs_customer_id row = customer_id s)"
  define c2 where "c2 \<longleftrightarrow> summary_id s \<in> cs_id ` set (tbl_compliance_summaries db)"
  have "memory_storage (store_summary env self s) = memory_storage self"
    unfolding store_summary_def Some option.case c1_def [symmetric] c2_def [symmetric]
    by (cases "summary_store_fails env"; cases c1; cases c2) simp_all
  with assms show ?thesis by simp
qed

lemma memory_storage_save_to_cache [simp]:
  "memory_storage (save_to_cache self now k v) = memory_storage self"
  by (cases "redis_client self"; cases "redis_setex (the (redis_client self)) now k 3600 v";
      simp add: save_to_cache_def)+

lemma memory_storage_send_events [simp]:
  "memory_storage (summary_send_events self s) = memory_storage self"
  by (simp add: summary_send_events_def)

lemma memory_storage_generate_summary:
  assumes "memory_storage self = None"
  shows "memory_storage (snd (generate_summary md5 env self cid)) = None"
  using generate_summary_cases [of self env cid md5] assms
  by (auto simp: memory_storage_store_summary)

lemma memory_storage_generate_summaries:
  "memory_storage self = None \<Longrightarrow> memory_storage (generate_summaries md5 self calls) = None"
  by (induction calls arbitrary: self) (auto simp: memory_storage_generate_summary)

text \<open>
  Unless the database set-up raised in \<open>__init__\<close>, no sequence of calls leaves anything
  in memory: an unavailable database alone gives no fallback store.
\<close>

lemma nothing_in_memory_without_raise:
  assumes "\<not> database_setup_raises st"
  shows "stored_in_memory (generate_summaries md5 (init_storage_agent st) calls) k = None"
  using assms memory_storage_generate_summaries [of "init_storage_agent st" md5 calls]
  by (simp add: stored_in_memory_def init_storage_agent_memory)






section \<open>Audit logging and anomaly detection\<close>

lemma redis_unreachable [simp]:
  "\<not> available r \<Longrightarrow> redis_incr r now k = None"
  "\<not> available r \<Longrightarrow> redis_expire r now k ttl = None"
  "\<not> available r \<Longrightarrow> redis_setex r now k ttl v = None"
  by (simp_all add: redis_incr_def redis_expire_def redis_setex_def)

lemma update_metrics_unavailable:
  "cache_unavailable self \<Longrightarrow> update_metrics env self event_type = self"
  by (cases "redis_client self") (simp_all add: cache_unavailable_def update_metrics_def)

lemma redis_client_store_audit_log [simp]:
  "redis_client (store_audit_log env self log_entry) = redis_client self"
  by (cases "db_session self"; cases "memory_logs self") (simp_all add: store_audit_log_def)

lemma detect_repeated_failures_unavailable:
  "cache_unavailable self \<Longrightarrow> detect_repeated_failures fmt env self event_data = ([], self)"
  by (cases "redis_client self")
     (simp_all add: cache_unavailable_def detect_repeated_failures_def)

lemma detect_event_rate_unavailable:
  "cache_unavailable self \<Longrightarrow> detect_event_rate env self event_type = ([], self)"
  by (cases "redis_client self") (simp_all add: cache_unavailable_def detect_event_rate_def)

lemma detect_anomalies_unavailable:
  "cache_unavailable self \<Longrightarrow> detect_anomalies fmt env self event_type event_data = ([], self)"
  by (simp add: detect_anomalies_def detect_repeated_failures_unavailable
        detect_event_rate_unavailable)

lemma log_event_logged:
  assumes "serializable event_data"
  shows "\<exists>res. fst (log_event fmt env self event_type event_data) = Inr res \<and> logged res
         \<and> logged_event_type res = event_type"
proof -
  obtain anomalies self3 where
    "detect_anomalies fmt env
       (update_metrics env (store_audit_log env self (make_log_entry env event_type event_data))
          event_type) event_type event_data = (anomalies, self3)"
    by (cases "detect_anomalies fmt env
       (update_metrics env (store_audit_log env self (make_log_entry env event_type event_data))
          event_type) event_type event_data")
  with assms show ?thesis
    by (simp add: log_event_def Let_def)
qed

lemma log_event_unavailable:
  assumes "serializable event_data" "cache_unavailable self"
  shows "snd (log_event fmt env self event_type event_data)
           = ([], store_audit_log env self (make_log_entry env event_type event_data))"
proof -
  let ?self1 = "store_audit_log env self (make_log_entry env event_type event_data)"
  from assms(2) have un: "cache_unavailable ?self1"
    by (simp add: cache_unavailable_def)
  have "update_metrics env ?self1 event_type = ?self1"
    using un by (rule update_metrics_unavailable)
  moreover have "detect_anomalies fmt env ?self1 event_type event_data = ([], ?self1)"
    using un by (rule detect_anomalies_unavailable)
  ultimately show ?thesis
    using assms(1) by (simp add: log_event_def Let_def)
qed

text \<open>Redis commands leave the other keys alone and the server reachable.\<close>

lemma redis_incr_other:
  assumes "redis_incr r now k' = Some (v, r')" "k \<noteq> k'"
  shows "available r' \<and> entries r' k = entries r k"
proof (cases "live now (entries r k')")
  case None
  with assms show ?thesis
    by (cases "available r") (auto simp: redis_incr_def)
next
  case (Some e)
  obtain val ex where e: "e = (val, ex)" by (cases e)
  show ?thesis
  proof (cases val)
    case (Counter n)
    with assms Some e show ?thesis
      by (cases "available r") (auto simp: redis_incr_def)
  next
    case (Alert s)
    with assms Some e show ?thesis
      by (cases "available r") (auto simp: redis_incr_def)
  qed
qed

lemma redis_expire_other:
  assumes "redis_expire r now k' ttl = Some r'" "k \<noteq> k'"
  shows "available r' \<and> entries r' k = entries r k"
proof (cases "live now (entries r k')")
  case None
  with assms show ?thesis
    by (cases "available r") (auto simp: redis_expire_def)
next
  case (Some e)
  obtain val ex where e: "e = (val, ex)" by (cases e)
  with assms Some show ?thesis
    by (cases "available r") (auto simp: redis_expire_def)
qed

lemma redis_setex_other:
  assumes "redis_setex r now k' ttl v = Some r'" "k \<noteq> k'"
  shows "available r' \<and> entries r' k = entries r k"
  using assms by (cases "available r") (auto simp: redis_setex_def)

text \<open>The metrics, the event-rate block and the alerts do not touch a key that is not theirs.\<close>

lemma update_metrics_frame:
  assumes r: "redis_client self = Some r" "available r"
      and k: "k \<noteq> ''audit:counter:'' @ et" "k \<noteq> ''audit:daily:'' @ now_ymd env @ '':'' @ et"
  shows "\<exists>r'. redis_client (update_metrics env self et) = Some r' \<and> available r'
              \<and> entries r' k = entries r k"
proof (cases "redis_incr r (clock env) (''audit:counter:'' @ et)")
  case None
  with r show ?thesis by (simp add: update_metrics_def)
next
  case (Some p1)
  note Some1 = Some
  obtain v1 r1 where p1: "p1 = (v1, r1)" by (cases p1)
  from redis_incr_other [OF Some1 [unfolded p1] k(1)]
  have r1: "available r1" "entries r1 k = entries r k" by simp_all
  show ?thesis
  proof (cases "redis_incr r1 (clock env) (''audit:daily:'' @ now_ymd env @ '':'' @ et)")
    case None
    with r Some1 p1 r1 show ?thesis by (simp add: update_metrics_def)
  next
    case (Some p2)
    note Some2 = Some
    obtain v2 r2 where p2: "p2 = (v2, r2)" by (cases p2)
    from redis_incr_other [OF Some2 [unfolded p2] k(2)]
    have r2: "available r2" "entries r2 k = entries r1 k" by simp_all
    show ?thesis
    proof (cases "redis_expire r2 (clock env) (''audit:daily:'' @ now_ymd env @ '':'' @ et)
                    (86400 * 7)")
      case None
      with r Some1 p1 Some2 p2 r1 r2
      show ?thesis by (simp add: update_metrics_def)
    next
      case (Some r3)
      from redis_expire_other [OF Some k(2)]
      have "available r3" "entries r3 k = entries r2 k" by simp_all
      with r Some1 p1 Some2 p2 r1 r2 Some
      show ?thesis by (simp add: update_metrics_def)
    qed
  qed
qed

lemma detect_event_rate_frame:
  assumes r: "redis_client self = Some r" "available r"
      and k: "k \<noteq> ''audit:rate:'' @ et"
  shows "\<exists>rates r'. detect_event_rate env self et = (rates, self\<lparr>redis_client := Some r'\<rparr>)
              \<and> set rates \<subseteq> {''High event rate detected for '' @ et}
              \<and> available r' \<and> entries r' k = entries r k"
proof (cases "redis_incr r (clock env) (''audit:rate:'' @ et)")
  case None
  have same: "self\<lparr>redis_client := Some r\<rparr> = self" using r(1) by simp
  have "detect_event_rate env self et = ([], self\<lparr>redis_client := Some r\<rparr>)"
    using None r(1) same by (simp add: detect_event_rate_def)
  with r(2) show ?thesis by auto
next
  case (Some p1)
  note Some1 = Some
  obtain v1 r1 where p1: "p1 = (v1, r1)" by (cases p1)
  from redis_incr_other [OF Some1 [unfolded p1] k]
  have r1: "available r1" "entries r1 k = entries r k" by simp_all
  show ?thesis
  proof (cases "redis_expire r1 (clock env) (''audit:rate:'' @ et) 60")
    case None
    have "detect_event_rate env self et = ([], self\<lparr>redis_client := Some r1\<rparr>)"
      using None r(1) Some1 p1 by (simp add: detect_event_rate_def)
    with r1 show ?thesis by auto
  next
    case (Some r2)
    from redis_expire_other [OF Some k]
    have r2: "available r2" "entries r2 k = entries r k" using r1 by simp_all
    have "detect_event_rate env self et =
            (if v1 > 100 then [''High event rate detected for '' @ et] else [],
             self\<lparr>redis_client := Some r2\<rparr>)"
      using Some r(1) Some1 p1 by (simp add: detect_event_rate_def)
    with r2 show ?thesis by auto
  qed
qed

lemma handle_anomalies_frame:
  assumes "redis_client self = Some r" "available r" "k \<noteq> ''audit:alert:'' @ now_ymdhms env"
  shows "\<exists>r'. redis_client (handle_anomalies env self anomalies) = Some r' \<and> available r'
              \<and> entries r' k = entries r k"
  using assms
proof (induction anomalies arbitrary: self r)
  case Nil
  then show ?case by simp
next
  case (Cons a anomalies)
  let ?self1 = "self\<lparr>kafka_handler :=
                    send_event (kafka_handler self) ''audit-anomaly'' (PStr ''anomaly'')
                      [(''anomaly'', PStr a), (''detected_at'', PStr (now_iso env))]\<rparr>"
  obtain r1 where s: "redis_setex r (clock env) (''audit:alert:'' @ now_ymdhms env) 3600 (Alert a)
                        = Some r1"
    using Cons.prems(2) by (simp add: redis_setex_def)
  from redis_setex_other [OF s Cons.prems(3)]
  have r1: "available r1" "entries r1 k = entries r k" by simp_all
  have step: "handle_anomalies env self (a # anomalies)
                = handle_anomalies env (?self1\<lparr>redis_client := Some r1\<rparr>) anomalies"
    using Cons.prems(1) s by (simp add: Let_def)
  have "redis_client (?self1\<lparr>redis_client := Some r1\<rparr>) = Some r1" by simp
  from Cons.IH [OF this r1(1) Cons.prems(3)] r1(2)
  show ?case unfolding step by simp
qed

text \<open>The failure counter of a customer under \<open>INCR\<close> and \<open>EXPIRE\<close>.\<close>

lemma live_same_expiry:
  assumes "live now e = Some (v, ex)"
  shows "live now (Some (v', ex)) = Some (v', ex)"
proof (cases ex)
  case None
  then show ?thesis by (simp add: live_def)
next
  case (Some t)
  from assms obtain v0 ex0 where e: "e = Some (v0, ex0)"
    by (cases e) (auto simp: live_def)
  from assms e Some have "now < t"
    by (cases ex0) (simp_all add: live_def split: if_splits)
  with Some show ?thesis by (simp add: live_def)
qed

lemma redis_incr_counter:
  assumes "available r" "counter_reads now r k n"
  shows "\<exists>r1 ex. redis_incr r now k = Some (n + 1, r1) \<and> available r1
           \<and> live now (entries r1 k) = Some (Counter (n + 1), ex)"
proof (cases "live now (entries r k)")
  case None
  with assms have "n = 0" by (simp add: counter_reads_def)
  with None assms(1) show ?thesis
    by (simp add: redis_incr_def live_def)
next
  case (Some e)
  obtain val ex where e: "e = (val, ex)" by (cases e)
  with Some assms(2) have val: "val = Counter n"
    by (cases val) (simp_all add: counter_reads_def)
  from Some e have "live now (Some (Counter (n + 1), ex)) = Some (Counter (n + 1), ex)"
    by (simp add: live_same_expiry)
  with Some e val assms(1) show ?thesis
    by (simp add: redis_incr_def)
qed

lemma redis_expire_live:
  assumes "available r" "live now (entries r k) = Some (v, ex)"
  shows "\<exists>r2. redis_expire r now k ttl = Some r2 \<and> available r2
           \<and> entries r2 k = Some (v, Some (now + ttl))"
  using assms by (simp add: redis_expire_def)

lemma counter_reads_later:
  assumes "entries r k = Some (Counter n, Some (t + 3600))" "t' < t + 3600"
  shows "counter_reads t' r k n"
  using assms by (simp add: counter_reads_def live_def)

lemma counter_reads_cong:
  "entries r' k = entries r k \<Longrightarrow> counter_reads now r' k n = counter_reads now r k n"
  by (simp add: counter_reads_def)

lemma failure_event_fields:
  assumes "failure_event c event_data"
  shows "serializable event_data"
    and "dict_get event_data ''status'' PNone = PStr ''failure''"
    and "failure_key fmt event_data = ''audit:failures:'' @ c"
    and "failure_anomaly fmt event_data = repeated_failure_anomaly c"
  using assms
  by (simp_all add: failure_event_def dict_get_def failure_key_def failure_anomaly_def
        repeated_failure_anomaly_def)

text \<open>
  The first block of \<open>_detect_anomalies\<close> on a failure event: the counter goes up by
  one, lives for another hour, and the anomaly is raised when it has passed 5.
\<close>

lemma detect_repeated_failures_count:
  assumes r: "redis_client self = Some r" "available r"
      and ev: "failure_event c event_data"
      and n: "counter_reads (clock env) r (''audit:failures:'' @ c) n"
  shows "\<exists>r'. detect_repeated_failures fmt env self event_data
                 = (if n + 1 > 5 then [repeated_failure_anomaly c] else [],
                    self\<lparr>redis_client := Some r'\<rparr>)
              \<and> available r'
              \<and> entries r' (''audit:failures:'' @ c)
                  = Some (Counter (n + 1), Some (clock env + 3600))"
proof -
  from redis_incr_counter [OF r(2) n]
  obtain r1 ex where 1: "redis_incr r (clock env) (''audit:failures:'' @ c) = Some (n + 1, r1)"
    "available r1"
    "live (clock env) (entries r1 (''audit:failures:'' @ c)) = Some (Counter (n + 1), ex)"
    by blast
  from redis_expire_live [OF 1(2,3), of 3600]
  obtain r2 where 2: "redis_expire r1 (clock env) (''audit:failures:'' @ c) 3600 = Some r2"
    "available r2"
    "entries r2 (''audit:failures:'' @ c) = Some (Counter (n + 1), Some (clock env + 3600))"
    by blast
  have "detect_repeated_failures fmt env self event_data
          = (if n + 1 > 5 then [repeated_failure_anomaly c] else [],
             self\<lparr>redis_client := Some r2\<rparr>)"
    using r(1) 1(1) 2(1) failure_event_fields(2) [OF ev] failure_event_fields(3,4) [OF ev, of fmt]
    by (simp add: detect_repeated_failures_def)
  with 2 show ?thesis by blast
qed

text \<open>One logged failure event, from the counter's reading to the anomalies of the call.\<close>

lemma log_event_failure_step:
  assumes r: "redis_client self = Some r" "available r"
      and ev: "failure_event c event_data"
      and n: "counter_reads (clock env) r (''audit:failures:'' @ c) n"
  shows "\<exists>res anomalies self' r'.
           log_event fmt env self event_type event_data = (Inr res, anomalies, self')
           \<and> count_list anomalies (repeated_failure_anomaly c) = (if 5 < n + 1 then 1 else 0)
           \<and> redis_client self' = Some r' \<and> available r'
           \<and> entries r' (''audit:failures:'' @ c)
               = Some (Counter (n + 1), Some (clock env + 3600))"
proof -
  let ?k = "''audit:failures:'' @ c"
  let ?msg = "repeated_failure_anomaly c"
  let ?self1 = "store_audit_log env self (make_log_entry env event_type event_data)"
  have r1: "redis_client ?self1 = Some r" using r(1) by simp
  have keys: "?k \<noteq> ''audit:counter:'' @ event_type"
    "?k \<noteq> ''audit:daily:'' @ now_ymd env @ '':'' @ event_type"
    "?k \<noteq> ''audit:rate:'' @ event_type"
    "?k \<noteq> ''audit:alert:'' @ now_ymdhms env"
    by simp_all
  from update_metrics_frame [OF r1 r(2) keys(1,2)]
  obtain r2 where 2: "redis_client (update_metrics env ?self1 event_type) = Some r2"
    "available r2" "entries r2 ?k = entries r ?k"
    by blast
  let ?self2 = "update_metrics env ?self1 event_type"
  have n2: "counter_reads (clock env) r2 ?k n"
    using n counter_reads_cong [OF 2(3)] by simp
  from detect_repeated_failures_count [OF 2(1,2) ev n2, of fmt]
  obtain r3 where 3: "detect_repeated_failures fmt env ?self2 event_data
                 = (if n + 1 > 5 then [?msg] else [], ?self2\<lparr>redis_client := Some r3\<rparr>)"
    "available r3" "entries r3 ?k = Some (Counter (n + 1), Some (clock env + 3600))"
    by blast
  let ?self3 = "?self2\<lparr>redis_client := Some r3\<rparr>"
  have rc3: "redis_client ?self3 = Some r3" by simp
  from detect_event_rate_frame [OF rc3 3(2) keys(3), of env]
  obtain rates r4 where 4: "detect_event_rate env ?self3 event_type
                              = (rates, ?self3\<lparr>redis_client := Some r4\<rparr>)"
    "set rates \<subseteq> {''High event rate detected for '' @ event_type}"
    "available r4" "entries r4 ?k = entries r3 ?k"
    by blast
  let ?self4 = "?self3\<lparr>redis_client := Some r4\<rparr>"
  let ?fails = "if n + 1 > 5 then [?msg] else []"
  have det: "detect_anomalies fmt env ?self2 event_type event_data = (?fails @ rates, ?self4)"
    using 3(1) 4(1) by (simp add: detect_anomalies_def)
  have "?msg \<notin> set rates"
    using 4(2) by (auto simp: repeated_failure_anomaly_def)
  then have "count_list rates ?msg = 0"
    by (simp add: count_list_0_iff)
  then have cnt: "count_list (?fails @ rates) ?msg = (if 5 < n + 1 then 1 else 0)"
    by simp
  have rc4: "redis_client ?self4 = Some r4" by simp
  from handle_anomalies_frame [OF rc4 4(3) keys(4), of "?fails @ rates"]
  obtain r5 where 5: "redis_client (handle_anomalies env ?self4 (?fails @ rates)) = Some r5"
    "available r5" "entries r5 ?k = entries r4 ?k"
    by blast
  let ?self5 = "if ?fails @ rates \<noteq> [] then handle_anomalies env ?self4 (?fails @ rates) else ?self4"
  have fin: "\<exists>r'. redis_client ?self5 = Some r' \<and> available r'
               \<and> entries r' ?k = Some (Counter (n + 1), Some (clock env + 3600))"
  proof (cases "?fails @ rates \<noteq> []")
    case True
    then have "?self5 = handle_anomalies env ?self4 (?fails @ rates)" by simp
    with 5 4(4) 3(3) show ?thesis by simp
  next
    case False
    then have "?self5 = ?self4" by simp
    with rc4 4(3,4) 3(3) show ?thesis by simp
  qed
  have "log_event fmt env self event_type event_data =
          (Inr \<lparr>logged = True, logged_event_type = event_type, timestamp = now_iso env\<rparr>,
           ?fails @ rates, ?self5)"
    using failure_event_fields(1) [OF ev] det
    by (simp add: log_event_def Let_def)
  with cnt fin show ?thesis by blast
qed

lemma close_times_tail: "close_times (t # ts) \<Longrightarrow> close_times ts"
  by (cases ts) simp_all

lemma within_one_hour_close:
  "sorted ts \<Longrightarrow> ts = [] \<or> last ts < hd ts + 3600 \<Longrightarrow> close_times ts"
proof (induction ts rule: close_times.induct)
  case (1 t t' ts)
  from "1.prems"(1) have le: "t \<le> t'" and s: "sorted (t' # ts)" by simp_all
  from s have "t' \<le> last (t' # ts)"
    by (metis last_in_set list.distinct(1) list.set_intros(1) order_refl set_ConsD sorted_simps(2))
  moreover from "1.prems"(2) have "last (t' # ts) < t + 3600" by simp
  ultimately have "t' < t + 3600" and "last (t' # ts) < hd (t' # ts) + 3600"
    using le by simp_all
  with le s "1.IH" show ?case by simp
qed simp_all

text \<open>
  A run of failure events of one customer: the \<open>k\<close>-th call (counting from 0) raises
  the repeated-failure anomaly once if the counter, which read \<open>n\<close> at the start, has
  then passed 5, and not otherwise.
\<close>

lemma log_events_counts:
  assumes "list_all (\<lambda>(env, et, ed). failure_event c ed) events"
      and "close_times (map (\<lambda>e. clock (fst e)) events)"
      and "redis_client self = Some r" "available r"
      and "events \<noteq> [] \<Longrightarrow> counter_reads (clock (fst (hd events))) r (''audit:failures:'' @ c) n"
  shows "map (\<lambda>a. count_list a (repeated_failure_anomaly c)) (fst (log_events fmt self events))
           = map (\<lambda>k. if 5 < n + int k + 1 then 1 else 0) [0..<length events]"
  using assms
proof (induction events arbitrary: self r n)
  case Nil
  then show ?case by simp
next
  case (Cons ev events)
  obtain env et ed where ev: "ev = (env, et, ed)" by (cases ev)
  from Cons.prems(1) ev have fe: "failure_event c ed"
    and rest: "list_all (\<lambda>(env, et, ed). failure_event c ed) events" by simp_all
  from Cons.prems(5) ev have n: "counter_reads (clock env) r (''audit:failures:'' @ c) n" by simp
  from log_event_failure_step [OF Cons.prems(3,4) fe n, of fmt et]
  obtain res anomalies self' r' where step:
    "log_event fmt env self et ed = (Inr res, anomalies, self')"
    "count_list anomalies (repeated_failure_anomaly c) = (if 5 < n + 1 then 1 else 0)"
    "redis_client self' = Some r'" "available r'"
    "entries r' (''audit:failures:'' @ c) = Some (Counter (n + 1), Some (clock env + 3600))"
    by blast
  have ct: "close_times (map (\<lambda>e. clock (fst e)) events)"
    using close_times_tail [of "clock (fst ev)" "map (\<lambda>e. clock (fst e)) events"] Cons.prems(2)
    by simp
  have next_reads: "counter_reads (clock (fst (hd events))) r' (''audit:failures:'' @ c) (n + 1)"
    if "events \<noteq> []"
  proof -
    from that obtain ev' events' where e': "events = ev' # events'" by (cases events) auto
    obtain env' et' ed' where ev': "ev' = (env', et', ed')" by (cases ev')
    from Cons.prems(2) ev e' ev' have "clock env' < clock env + 3600" by simp
    from counter_reads_later [OF step(5) this] e' ev' show ?thesis by simp
  qed
  from Cons.IH [OF rest ct step(3,4) next_reads]
  have ih: "map (\<lambda>a. count_list a (repeated_failure_anomaly c)) (fst (log_events fmt self' events))
           = map (\<lambda>k. if 5 < n + 1 + int k + 1 then 1 else 0) [0..<length events]"
    by simp
  have run: "fst (log_events fmt self (ev # events)) = anomalies # fst (log_events fmt self' events)"
    using ev step(1) by (simp split: prod.splits)
  have rhs: "map (\<lambda>k. if 5 < n + int k + 1 then 1 else (0::nat)) [0..<length (ev # events)]
               = (if 5 < n + 1 then 1 else 0)
                 # map (\<lambda>k. if 5 < n + 1 + int k + 1 then 1 else 0) [0..<length events]"
    by (simp add: map_upt_Suc del: upt_Suc)
  show ?case unfolding run rhs using step(2) ih by simp
qed

text \<open>
  Claim C4: let failure events of one customer be logged one after the other within
  one hour, with Redis reachable throughout and the customer's failure counter clear
  at the first of them. Then the call for the \<open>k\<close>-th event raises the repeated-failure
  anomaly of the customer exactly once if \<open>k\<close> is greater than 5 and not at all
  otherwise; with six events there is no such anomaly on the first five and exactly one
  on the sixth.
\<close>

theorem repeated_failure_anomaly_after_five:
  assumes "list_all (\<lambda>(env, event_type, event_data). failure_event c event_data) events"
      and "within_one_hour (map (\<lambda>e. clock (fst e)) events)"
      and "events \<noteq> []"
      and "counter_clear (clock (fst (hd events))) self c"
  shows "map (\<lambda>a. count_list a (repeated_failure_anomaly c)) (fst (log_events fmt self events))
           = map (\<lambda>k. if 5 \<le> k then 1 else 0) [0..<length events]
       \<and> (length events = 6 \<longrightarrow>
            map (\<lambda>a. count_list a (repeated_failure_anomaly c)) (fst (log_events fmt self events))
              = [0, 0, 0, 0, 0, 1])"
proof -
  from assms(4) obtain r where r: "redis_client self = Some r" "available r"
    and clear: "live (clock (fst (hd events))) (entries r (''audit:failures:'' @ c)) = None"
    by (cases "redis_client self") (simp_all add: counter_clear_def)
  from clear have reads: "counter_reads (clock (fst (hd events))) r (''audit:failures:'' @ c) 0"
    by (simp add: counter_reads_def)
  from assms(2) have close: "close_times (map (\<lambda>e. clock (fst e)) events)"
    unfolding within_one_hour_def using within_one_hour_close by blast
  have ev: "list_all (\<lambda>(env, et, ed). failure_event c ed) events"
    using assms(1) by simp
  have "map (\<lambda>a. count_list a (repeated_failure_anomaly c)) (fst (log_events fmt self events))
           = map (\<lambda>k. if 5 < 0 + int k + 1 then 1 else 0) [0..<length events]"
    using reads by (intro log_events_counts [OF ev close r]) simp
  also have "\<dots> = map (\<lambda>k. if 5 \<le> k then 1 else 0) [0..<length events]"
    by (intro map_cong refl) auto
  finally have general:
    "map (\<lambda>a. count_list a (repeated_failure_anomaly c)) (fst (log_events fmt self events))
           = map (\<lambda>k. if 5 \<le> k then 1 else 0) [0..<length events]" .
  have six: "map (\<lambda>k. if 5 \<le> k then 1 else (0::nat)) [0..<6] = [0, 0, 0, 0, 0, 1]"
    by (simp add: upt_rec)
  from general six show ?thesis by simp
qed

theorem repeated_failure_anomaly_after_five_witness:
  "list_all (\<lambda>(env, event_type, event_data). failure_event ''CUSTOMER_001'' event_data) six_failures
   \<and> within_one_hour (map (\<lambda>e. clock (fst e)) six_failures)
   \<and> six_failures \<noteq> []
   \<and> counter_clear (clock (fst (hd six_failures))) cached_audit_agent ''CUSTOMER_001''
   \<and> length six_failures = 6
   \<and> map (\<lambda>a. count_list a (repeated_failure_anomaly ''CUSTOMER_001''))
        (fst (log_events (\<lambda>v. ''object'') cached_audit_agent six_failures))
       = [0, 0, 0, 0, 0, 1]"
proof -
  have a: "list_all (\<lambda>(env, event_type, event_data). failure_event ''CUSTOMER_001'' event_data)
             six_failures"
    by (simp add: six_failures_def failure_event_def serializable_def example_failure_def)
  have b: "within_one_hour (map (\<lambda>e. clock (fst e)) six_failures)"
    by (simp add: six_failures_def within_one_hour_def example_audit_env_def)
  have c: "six_failures \<noteq> []"
    and l: "length six_failures = 6"
    by (simp_all add: six_failures_def)
  have d: "counter_clear (clock (fst (hd six_failures))) cached_audit_agent ''CUSTOMER_001''"
    by (simp add: counter_clear_def cached_audit_agent_def live_def)
  from repeated_failure_anomaly_after_five [OF a b c d, of "\<lambda>v. ''object''"] l
  have "map (\<lambda>a. count_list a (repeated_failure_anomaly ''CUSTOMER_001''))
        (fst (log_events (\<lambda>v. ''object'') cached_audit_agent six_failures))
       = [0, 0, 0, 0, 0, 1]"
    by blast
  with a b c d l show ?thesis by blast
qed

text \<open>
  Claim C7: for an event whose payload can be serialised, \<open>log_event\<close> returns its
  dictionary with \<open>logged\<close> true, whatever the state of the database, the cache and the
  bus; and when the cache backend is unavailable the anomaly detection finds nothing,
  the call raises no anomaly and does just the audit write.
\<close>

theorem log_event_always_succeeds:
  assumes "serializable event_data"
  shows "(\<exists>res. fst (log_event fmt env self event_type event_data) = Inr res \<and> logged res)
       \<and> (cache_unavailable self \<longrightarrow>
            fst (detect_anomalies fmt env self event_type event_data) = []
            \<and> snd (log_event fmt env self event_type event_data)
                = ([], store_audit_log env self (make_log_entry env event_type event_data)))"
  using log_event_logged [OF assms, of fmt env self event_type]
    log_event_unavailable [OF assms, of self fmt env event_type]
    detect_anomalies_unavailable [of self fmt env event_type event_data]
  by auto

theorem log_event_always_succeeds_witness:
  "serializable example_failure \<and> cache_unavailable uncached_audit_agent
   \<and> bus_available (kafka_handler uncached_audit_agent) = False
   \<and> db_session uncached_audit_agent = None
   \<and> fst (log_event (\<lambda>v. ''object'') (example_audit_env 0) uncached_audit_agent
            ''compliance-summary-generated'' example_failure)
       = Inr \<lparr>logged = True, logged_event_type = ''compliance-summary-generated'',
              timestamp = ''t''\<rparr>
   \<and> fst (snd (log_event (\<lambda>v. ''object'') (example_audit_env 0) uncached_audit_agent
            ''compliance-summary-generated'' example_failure)) = []"
proof -
  have a: "serializable example_failure"
    by (simp add: serializable_def example_failure_def)
  have b: "cache_unavailable uncached_audit_agent"
    and c: "bus_available (kafka_handler uncached_audit_agent) = False"
    and d: "db_session uncached_audit_agent = None"
    by (simp_all add: cache_unavailable_def uncached_audit_agent_def)
  from log_event_always_succeeds [OF a, of "\<lambda>v. ''object''" "example_audit_env 0"
         uncached_audit_agent "''compliance-summary-generated''"] b
  obtain res where res: "fst (log_event (\<lambda>v. ''object'') (example_audit_env 0)
            uncached_audit_agent ''compliance-summary-generated'' example_failure) = Inr res"
    and e: "fst (snd (log_event (\<lambda>v. ''object'') (example_audit_env 0) uncached_audit_agent
            ''compliance-summary-generated'' example_failure)) = []"
    by auto
  have "fst (log_event (\<lambda>v. ''object'') (example_audit_env 0) uncached_audit_agent
            ''compliance-summary-generated'' example_failure)
       = Inr \<lparr>logged = True, logged_event_type = ''compliance-summary-generated'',
              timestamp = ''t''\<rparr>"
    using a by (simp add: log_event_def Let_def example_audit_env_def split: prod.splits)
  with a b c d e show ?thesis by blast
qed

section \<open>KYC validation\<close>

lemma retrieve_document_None_iff:
  "retrieve_document env self did = None \<longleftrightarrow> \<not> database_has env self did \<and> \<not> chroma_has env"
proof -
  let ?db = "case db_session self of
               None \<Rightarrow> None
             | Some db \<Rightarrow>
                 if document_query_fails env then None
                 else find (\<lambda>doc. doc_id doc = did) (tbl_documents db)"
  have db: "(?db = None) = (\<not> database_has env self did)"
  proof (cases "db_session self")
    case None
    then show ?thesis by (simp add: database_has_def)
  next
    case (Some db)
    have "(find (\<lambda>doc. doc_id doc = did) (tbl_documents db) = None)
            = (did \<notin> doc_id ` set (tbl_documents db))"
      by (auto simp: find_None_iff)
    with Some show ?thesis by (simp add: database_has_def)
  qed
  have ch: "(case chroma_get env of
               None \<Rightarrow> None
             | Some [] \<Rightarrow> None
             | Some ((text, None) # _) \<Rightarrow> None
             | Some ((text, Some metadata) # _) \<Rightarrow>
                 Some \<lparr>kd_id = did,
                       kd_text = PStr text,
                       kd_type = dict_get metadata ''document_type'' (PStr ''unknown''),
                       kd_customer_id = dict_get metadata ''customer_id'' PNone\<rparr>) = None
            \<longleftrightarrow> \<not> chroma_has env"
    by (simp add: chroma_has_def split: option.split list.split prod.split)
  show ?thesis
  proof (cases ?db)
    case None
    with db ch show ?thesis by (simp add: retrieve_document_def)
  next
    case (Some doc)
    with db show ?thesis by (simp add: retrieve_document_def)
  qed
qed

lemma retrieve_document_id:
  assumes "retrieve_document env self did = Some document"
  shows "kd_id document = did"
proof -
  let ?db = "case db_session self of
               None \<Rightarrow> None
             | Some db \<Rightarrow>
                 if document_query_fails env then None
                 else find (\<lambda>doc. doc_id doc = did) (tbl_documents db)"
  show ?thesis
  proof (cases ?db)
    case None
    with assms show ?thesis
      by (auto simp: retrieve_document_def split: option.splits list.splits prod.splits)
  next
    case (Some doc)
    then have "doc_id doc = did"
      by (cases "db_session self") (auto simp: find_Some_iff split: if_splits)
    with Some assms show ?thesis by (auto simp: retrieve_document_def)
  qed
qed

lemma perform_validation_fields:
  assumes "perform_validation md5 rules env document cid = Inr v"
  shows "document_id v = kd_id document \<and> v_customer_id v = cid"
proof -
  define chk where "chk =
    (if kd_type document = PStr ''commercial_registration''
     then validate_commercial_registration rules (kd_text document)
     else if kd_type document = PStr ''national_id''
     then validate_national_id rules (kd_text document)
     else if kd_type document = PStr ''bank_statement''
     then validate_bank_statement rules (kd_text document)
     else Inr validate_generic)"
  show ?thesis
  proof (cases chk)
    case (Inl e)
    with assms show ?thesis
      unfolding perform_validation_def Let_def chk_def [symmetric] by simp
  next
    case (Inr c)
    define chk' where "chk' =
      (case ai_validate rules of
         None \<Rightarrow> Inr c
       | Some ai \<Rightarrow>
           (case ai (kd_text document) (kd_type document) of
              Inl e \<Rightarrow> Inl e
            | Inr None \<Rightarrow> Inr c
            | Inr (Some missing_items) \<Rightarrow> Inr (c\<lparr>check_issues := missing_items\<rparr>)))"
    from assms Inr show ?thesis
      unfolding perform_validation_def Let_def chk_def [symmetric]
      by (simp add: chk'_def [symmetric]) (cases chk', auto)
  qed
qed

lemma kafka_handler_store_validation [simp]:
  "kafka_handler (store_validation env self v) = kafka_handler self"
  by (cases "db_session self"; cases "memory_storage self") (simp_all add: store_validation_def)

lemma kafka_handler_save_to_cache [simp]:
  "kafka_handler (save_to_cache self now k v) = kafka_handler self"
proof (cases "redis_client self")
  case None
  then show ?thesis by (simp add: save_to_cache_def)
next
  case (Some r)
  then show ?thesis
    by (cases "redis_setex r now k 3600 v") (simp_all add: save_to_cache_def)
qed

text \<open>A call of \<open>validate_kyc\<close> that finds nothing in the cache.\<close>

lemma validate_kyc_miss:
  assumes "kyc_cache_miss env self did"
  shows "validate_kyc md5 rules env self did cid =
     (case retrieve_document env self did of
        None \<Rightarrow> (Inr (ErrorResponse ''Document not found''), self)
      | Some document \<Rightarrow>
          (case perform_validation md5 rules env document cid of
             Inl e \<Rightarrow> (Inl e, self)
           | Inr v \<Rightarrow>
               (Inr (ValidationResponse v),
                kyc_send_events env
                  (if redis_client (store_validation env self v) \<noteq> None
                   then save_to_cache (store_validation env self v) (clock env) (''kyc:'' @ did) v
                   else store_validation env self v) v)))"
proof -
  from assms have miss: "(if redis_client self \<noteq> None
            then get_from_cache self (clock env) (''kyc:'' @ did) else None) = None"
    by (simp add: kyc_cache_miss_def)
  show ?thesis
  proof (cases "retrieve_document env self did")
    case None
    with miss show ?thesis by (simp add: validate_kyc_def)
  next
    case (Some document)
    with miss show ?thesis
      by (cases "perform_validation md5 rules env document cid")
         (simp_all add: validate_kyc_def Let_def)
  qed
qed

lemma validate_kyc_hit:
  assumes "get_from_cache self (clock env) (''kyc:'' @ did) = Some cached"
  shows "validate_kyc md5 rules env self did cid = (Inr (ValidationResponse cached), self)"
proof -
  from assms have "redis_client self \<noteq> None"
    by (cases "redis_client self") (simp_all add: get_from_cache_def)
  with assms show ?thesis by (simp add: validate_kyc_def)
qed

lemma mock_events_kyc_send_events:
  "mock_events (kafka_handler (kyc_send_events env self v)) =
     mock_events (kafka_handler self)
     @ (if bus_available (kafka_handler self)
        then validation_completed v
             # (if validation_status v = ''passed'' then [summary_requested env v] else [])
        else [])"
  by (simp add: kyc_send_events_def Let_def send_event_def validation_completed_def
        summary_requested_def)

text \<open>
  A validation that was returned on a cache miss is what every later call for the same
  document returns for an hour, whatever the stores hold by then.
\<close>

lemma redis_client_store_validation [simp]:
  "redis_client (store_validation env self v) = redis_client self"
  by (cases "db_session self"; cases "memory_storage self") (simp_all add: store_validation_def)

lemma redis_client_kyc_send_events [simp]:
  "redis_client (kyc_send_events env self v) = redis_client self"
  by (simp add: kyc_send_events_def Let_def)

lemma validation_is_cached:
  assumes r: "redis_client self = Some r" "available r"
      and miss: "kyc_cache_miss env self did"
      and ret: "validate_kyc md5 rules env self did cid = (Inr (ValidationResponse v), self')"
      and later: "clock env' < clock env + 3600"
  shows "validate_kyc md5' rules' env' self' did cid' = (Inr (ValidationResponse v), self')"
proof -
  from ret validate_kyc_miss [OF miss, of md5 rules cid]
  obtain document where doc: "retrieve_document env self did = Some document"
    by (cases "retrieve_document env self did") auto
  from ret validate_kyc_miss [OF miss, of md5 rules cid] doc r
  have self': "self' = kyc_send_events env
                 (save_to_cache (store_validation env self v) (clock env) (''kyc:'' @ did) v) v"
    by (cases "perform_validation md5 rules env document cid"; simp)
  have "redis_client self'
          = Some (r\<lparr>entries := (entries r)((''kyc:'' @ did) \<mapsto> (v, Some (clock env + 3600)))\<rparr>)"
    unfolding self' using r by (simp add: save_to_cache_def redis_setex_def)
  with r later have "get_from_cache self' (clock env') (''kyc:'' @ did) = Some v"
    by (simp add: get_from_cache_def redis_get_def live_def)
  then show ?thesis by (rule validate_kyc_hit)
qed

text \<open>
  Claim C5, as stated: whenever no store holds the document, \<open>validate_kyc\<close> returns
  the document-not-found error. The code looks into the cache first: an agent without
  database, with nothing in ChromaDB, whose cache still holds a validation of \<open>doc1\<close>,
  returns that validation, not the error.
\<close>

theorem cached_validation_without_document:
  "\<not> database_has (example_kyc_env 0) cached_kyc_agent ''doc1''
   \<and> \<not> chroma_has (example_kyc_env 0)
   \<and> retrieve_document (example_kyc_env 0) cached_kyc_agent ''doc1'' = None
   \<and> fst (validate_kyc (\<lambda>s. s) (example_rules passing_check) (example_kyc_env 0)
            cached_kyc_agent ''doc1'' ''C1'')
       = Inr (ValidationResponse example_validation_result)
   \<and> fst (validate_kyc (\<lambda>s. s) (example_rules passing_check) (example_kyc_env 0)
            cached_kyc_agent ''doc1'' ''C1'')
       \<noteq> Inr (ErrorResponse ''Document not found'')"
proof -
  have a: "\<not> database_has (example_kyc_env 0) cached_kyc_agent ''doc1''"
    by (simp add: database_has_def cached_kyc_agent_def)
  have b: "\<not> chroma_has (example_kyc_env 0)"
    by (simp add: chroma_has_def example_kyc_env_def)
  have c: "retrieve_document (example_kyc_env 0) cached_kyc_agent ''doc1'' = None"
    by (simp add: retrieve_document_def cached_kyc_agent_def example_kyc_env_def)
  have "get_from_cache cached_kyc_agent (clock (example_kyc_env 0)) (''kyc:'' @ ''doc1'')
          = Some example_validation_result"
    by (simp add: get_from_cache_def cached_kyc_agent_def redis_get_def live_def
          example_kyc_env_def)
  then have d: "fst (validate_kyc (\<lambda>s. s) (example_rules passing_check) (example_kyc_env 0)
            cached_kyc_agent ''doc1'' ''C1'')
       = Inr (ValidationResponse example_validation_result)"
    by (simp add: validate_kyc_hit)
  from a b c d show ?thesis by simp
qed

text \<open>
  Claim C5, amended: for every call of \<open>validate_kyc\<close> that finds no live cache entry
  for the document: if neither the database nor ChromaDB yields the document, the call
  returns the document-not-found error and leaves the agent as it was (no validation is
  stored, cached or published); if one of them yields it, the call does not return that
  error, and returns the validation of the document that the rule checks produce. A
  call that finds a cache entry returns the cached validation and leaves the agent as
  it was.
\<close>

theorem document_not_found_on_cache_miss:
  "(kyc_cache_miss env self did \<longrightarrow>
      (\<not> database_has env self did \<and> \<not> chroma_has env \<longrightarrow>
         validate_kyc md5 rules env self did cid
           = (Inr (ErrorResponse ''Document not found''), self))
      \<and> (database_has env self did \<or> chroma_has env \<longrightarrow>
           fst (validate_kyc md5 rules env self did cid)
             \<noteq> Inr (ErrorResponse ''Document not found'')
           \<and> (\<exists>document. retrieve_document env self did = Some document
                 \<and> kd_id document = did
                 \<and> (\<forall>v. perform_validation md5 rules env document cid = Inr v \<longrightarrow>
                        fst (validate_kyc md5 rules env self did cid)
                          = Inr (ValidationResponse v)))))
   \<and> (\<forall>cached. get_from_cache self (clock env) (''kyc:'' @ did) = Some cached \<longrightarrow>
          validate_kyc md5 rules env self did cid = (Inr (ValidationResponse cached), self))"
proof (intro conjI impI allI)
  assume miss: "kyc_cache_miss env self did"
    and "\<not> database_has env self did \<and> \<not> chroma_has env"
  then have "retrieve_document env self did = None"
    by (simp add: retrieve_document_None_iff)
  then show "validate_kyc md5 rules env self did cid
               = (Inr (ErrorResponse ''Document not found''), self)"
    by (simp add: validate_kyc_miss [OF miss])
next
  assume miss: "kyc_cache_miss env self did"
    and has: "database_has env self did \<or> chroma_has env"
  then have "retrieve_document env self did \<noteq> None"
    by (simp add: retrieve_document_None_iff)
  then obtain document where doc: "retrieve_document env self did = Some document"
    by blast
  show "fst (validate_kyc md5 rules env self did cid) \<noteq> Inr (ErrorResponse ''Document not found'')"
    using doc
    by (cases "perform_validation md5 rules env document cid")
       (simp_all add: validate_kyc_miss [OF miss])
  have "\<forall>v. perform_validation md5 rules env document cid = Inr v \<longrightarrow>
           fst (validate_kyc md5 rules env self did cid) = Inr (ValidationResponse v)"
    using doc by (simp add: validate_kyc_miss [OF miss])
  with doc retrieve_document_id [OF doc]
  show "\<exists>document. retrieve_document env self did = Some document
                 \<and> kd_id document = did
                 \<and> (\<forall>v. perform_validation md5 rules env document cid = Inr v \<longrightarrow>
                        fst (validate_kyc md5 rules env self did cid)
                          = Inr (ValidationResponse v))"
    by blast
next
  fix cached
  assume "get_from_cache self (clock env) (''kyc:'' @ did) = Some cached"
  then show "validate_kyc md5 rules env self did cid = (Inr (ValidationResponse cached), self)"
    by (rule validate_kyc_hit)
qed

lemma example_retrieve_document:
  "retrieve_document (example_kyc_env 0) document_kyc_agent ''doc1''
     = Some \<lparr>kd_id = ''doc1'',
             kd_text = PStr ''Commercial Registration Certificate 1010345678'',
             kd_type = PStr ''commercial_registration'',
             kd_customer_id = PStr ''C1''\<rparr>"
  by (simp add: retrieve_document_def document_kyc_agent_def example_kyc_env_def
        empty_database_def example_document_row_def)

lemma example_perform_validation:
  "perform_validation (\<lambda>s. s) (example_rules chk) (example_kyc_env 0)
     \<lparr>kd_id = ''doc1'',
      kd_text = PStr ''Commercial Registration Certificate 1010345678'',
      kd_type = PStr ''commercial_registration'',
      kd_customer_id = PStr ''C1''\<rparr> ''C1''
   = Inr \<lparr>validation_id = ''doc1_t1'', document_id = ''doc1'', v_customer_id = ''C1'',
          v_document_type = PStr ''commercial_registration'',
          validation_status = check_status chk,
          validation_score = check_score chk,
          identity_verified =
            (case check_identity_verified chk of None \<Rightarrow> False | Some b \<Rightarrow> b),
          address_verified =
            (case check_address_verified chk of None \<Rightarrow> False | Some b \<Rightarrow> b),
          business_verified =
            (case check_business_verified chk of None \<Rightarrow> False | Some b \<Rightarrow> b),
          v_issues = check_issues chk, v_recommendations = check_recommendations chk,
          validated_at = ''t1''\<rparr>"
  by (simp add: perform_validation_def example_rules_def example_kyc_env_def)

lemma example_cache_miss:
  "kyc_cache_miss (example_kyc_env 0) document_kyc_agent ''doc1''"
  "kyc_cache_miss (example_kyc_env 0) offline_agent ''doc1''"
  by (simp_all add: kyc_cache_miss_def get_from_cache_def document_kyc_agent_def
        offline_agent_def)

theorem document_not_found_on_cache_miss_witness:
  "kyc_cache_miss (example_kyc_env 0) offline_agent ''doc1''
   \<and> \<not> database_has (example_kyc_env 0) offline_agent ''doc1''
   \<and> \<not> chroma_has (example_kyc_env 0)
   \<and> validate_kyc (\<lambda>s. s) (example_rules passing_check) (example_kyc_env 0)
        offline_agent ''doc1'' ''C1''
       = (Inr (ErrorResponse ''Document not found''), offline_agent)
   \<and> kyc_cache_miss (example_kyc_env 0) document_kyc_agent ''doc1''
   \<and> database_has (example_kyc_env 0) document_kyc_agent ''doc1''
   \<and> fst (validate_kyc (\<lambda>s. s) (example_rules passing_check) (example_kyc_env 0)
            document_kyc_agent ''doc1'' ''C1'')
       = Inr (ValidationResponse
           \<lparr>validation_id = ''doc1_t1'', document_id = ''doc1'', v_customer_id = ''C1'',
            v_document_type = PStr ''commercial_registration'',
            validation_status = ''passed'', validation_score = 9 / 10,
            identity_verified = False, address_verified = False, business_verified = True,
            v_issues = [], v_recommendations = [], validated_at = ''t1''\<rparr>)"
proof -
  let ?env = "example_kyc_env 0"
  let ?rules = "example_rules passing_check"
  have a: "\<not> database_has ?env offline_agent ''doc1''"
    by (simp add: database_has_def offline_agent_def)
  have b: "\<not> chroma_has ?env"
    by (simp add: chroma_has_def example_kyc_env_def)
  have c: "database_has ?env document_kyc_agent ''doc1''"
    by (simp add: database_has_def document_kyc_agent_def example_kyc_env_def
          empty_database_def example_document_row_def)
  from document_not_found_on_cache_miss
         [of ?env offline_agent "''doc1''" "\<lambda>s. s" ?rules "''C1''"]
       example_cache_miss(2) a b
  have 1: "validate_kyc (\<lambda>s. s) ?rules ?env offline_agent ''doc1'' ''C1''
             = (Inr (ErrorResponse ''Document not found''), offline_agent)"
    by blast
  from document_not_found_on_cache_miss
         [of ?env document_kyc_agent "''doc1''" "\<lambda>s. s" ?rules "''C1''"]
       example_cache_miss(1) c
  obtain document where doc: "retrieve_document ?env document_kyc_agent ''doc1'' = Some document"
    and res: "\<forall>v. perform_validation (\<lambda>s. s) ?rules ?env document ''C1'' = Inr v \<longrightarrow>
                fst (validate_kyc (\<lambda>s. s) ?rules ?env document_kyc_agent ''doc1'' ''C1'')
                  = Inr (ValidationResponse v)"
    by blast
  from doc have "document = \<lparr>kd_id = ''doc1'',
             kd_text = PStr ''Commercial Registration Certificate 1010345678'',
             kd_type = PStr ''commercial_registration'',
             kd_customer_id = PStr ''C1''\<rparr>"
    by (simp add: example_retrieve_document)
  with res example_perform_validation [of passing_check]
  have 2: "fst (validate_kyc (\<lambda>s. s) ?rules ?env document_kyc_agent ''doc1'' ''C1'')
       = Inr (ValidationResponse
           \<lparr>validation_id = ''doc1_t1'', document_id = ''doc1'', v_customer_id = ''C1'',
            v_document_type = PStr ''commercial_registration'',
            validation_status = ''passed'', validation_score = 9 / 10,
            identity_verified = False, address_verified = False, business_verified = True,
            v_issues = [], v_recommendations = [], validated_at = ''t1''\<rparr>)"
    by (simp add: passing_check_def)
  from example_cache_miss a b c 1 2 show ?thesis by blast
qed

text \<open>
  Claim C6: for every call of \<open>validate_kyc\<close> that finds nothing in the cache and
  returns a validation, the messages handed to a bus that accepts them are, in this
  order, \<open>kyc-validation-completed\<close> under the document's identifier and, if and only
  if the status of the validation is \<open>passed\<close>, \<open>compliance-summary-requested\<close> under
  the customer's identifier; a bus that accepts nothing gets nothing.
\<close>

theorem validation_events:
  assumes "kyc_cache_miss env self did"
      and "validate_kyc md5 rules env self did cid = (Inr (ValidationResponse v), self')"
  shows "mock_events (kafka_handler self') =
           mock_events (kafka_handler self)
           @ (if bus_available (kafka_handler self)
              then validation_completed v
                   # (if validation_status v = ''passed'' then [summary_requested env v] else [])
              else [])
       \<and> topic (validation_completed v) = ''kyc-validation-completed''
       \<and> key (validation_completed v) = PStr did
       \<and> topic (summary_requested env v) = ''compliance-summary-requested''
       \<and> key (summary_requested env v) = PStr cid
       \<and> (bus_available (kafka_handler self) \<longrightarrow>
            filter (\<lambda>m. topic m = ''kyc-validation-completed'')
              (drop (length (mock_events (kafka_handler self))) (mock_events (kafka_handler self')))
              = [validation_completed v]
            \<and> (filter (\<lambda>m. topic m = ''compliance-summary-requested'')
                 (drop (length (mock_events (kafka_handler self)))
                    (mock_events (kafka_handler self'))) \<noteq> []
                 \<longleftrightarrow> validation_status v = ''passed''))"
proof -
  from assms(2) validate_kyc_miss [OF assms(1), of md5 rules cid]
  obtain document where doc: "retrieve_document env self did = Some document"
    by (cases "retrieve_document env self did") auto
  from assms(2) validate_kyc_miss [OF assms(1), of md5 rules cid] doc
  have pv: "perform_validation md5 rules env document cid = Inr v"
    and self': "self' = kyc_send_events env
                  (if redis_client (store_validation env self v) \<noteq> None
                   then save_to_cache (store_validation env self v) (clock env) (''kyc:'' @ did) v
                   else store_validation env self v) v"
    by (cases "perform_validation md5 rules env document cid"; simp)+
  have kh: "kafka_handler (if redis_client (store_validation env self v) \<noteq> None
                   then save_to_cache (store_validation env self v) (clock env) (''kyc:'' @ did) v
                   else store_validation env self v) = kafka_handler self"
    by simp
  have events: "mock_events (kafka_handler self') =
           mock_events (kafka_handler self)
           @ (if bus_available (kafka_handler self)
              then validation_completed v
                   # (if validation_status v = ''passed'' then [summary_requested env v] else [])
              else [])"
    unfolding self' mock_events_kyc_send_events kh by (rule refl)
  from perform_validation_fields [OF pv] retrieve_document_id [OF doc]
  have ids: "document_id v = did" "v_customer_id v = cid" by simp_all
  have topics: "topic (validation_completed v) = ''kyc-validation-completed''"
    "key (validation_completed v) = PStr did"
    "topic (summary_requested env v) = ''compliance-summary-requested''"
    "key (summary_requested env v) = PStr cid"
    using ids by (simp_all add: validation_completed_def summary_requested_def)
  show ?thesis
    using topics by (simp add: events)
qed

theorem validation_events_witness:
  "kyc_cache_miss (example_kyc_env 0) document_kyc_agent ''doc1''
   \<and> bus_available (kafka_handler document_kyc_agent)
   \<and> map topic (mock_events (kafka_handler (snd
        (validate_kyc (\<lambda>s. s) (example_rules passing_check) (example_kyc_env 0)
           document_kyc_agent ''doc1'' ''C1''))))
       = [''kyc-validation-completed'', ''compliance-summary-requested'']
   \<and> map topic (mock_events (kafka_handler (snd
        (validate_kyc (\<lambda>s. s) (example_rules failing_check) (example_kyc_env 0)
           document_kyc_agent ''doc1'' ''C1''))))
       = [''kyc-validation-completed'']"
proof -
  let ?env = "example_kyc_env 0"
  have bus: "bus_available (kafka_handler document_kyc_agent)"
    and none: "mock_events (kafka_handler document_kyc_agent) = []"
    by (simp_all add: document_kyc_agent_def)
  have run: "\<exists>v. validate_kyc (\<lambda>s. s) (example_rules chk) ?env document_kyc_agent ''doc1'' ''C1''
               = (Inr (ValidationResponse v),
                  snd (validate_kyc (\<lambda>s. s) (example_rules chk) ?env document_kyc_agent
                         ''doc1'' ''C1''))
               \<and> validation_status v = check_status chk" for chk
    by (simp add: validate_kyc_miss [OF example_cache_miss(1)] example_retrieve_document
          example_perform_validation)
  from run [of passing_check] obtain v1 where
    1: "validate_kyc (\<lambda>s. s) (example_rules passing_check) ?env document_kyc_agent ''doc1'' ''C1''
               = (Inr (ValidationResponse v1),
                  snd (validate_kyc (\<lambda>s. s) (example_rules passing_check) ?env
                         document_kyc_agent ''doc1'' ''C1''))"
    and s1: "validation_status v1 = ''passed''"
    by (auto simp: passing_check_def)
  from run [of failing_check] obtain v2 where
    2: "validate_kyc (\<lambda>s. s) (example_rules failing_check) ?env document_kyc_agent ''doc1'' ''C1''
               = (Inr (ValidationResponse v2),
                  snd (validate_kyc (\<lambda>s. s) (example_rules failing_check) ?env
                         document_kyc_agent ''doc1'' ''C1''))"
    and s2: "validation_status v2 = ''failed''"
    by (auto simp: failing_check_def)
  from validation_events [OF example_cache_miss(1) 1] bus none s1
  have a: "map topic (mock_events (kafka_handler (snd
        (validate_kyc (\<lambda>s. s) (example_rules passing_check) ?env
           document_kyc_agent ''doc1'' ''C1''))))
       = [''kyc-validation-completed'', ''compliance-summary-requested'']"
    by simp
  from validation_events [OF example_cache_miss(1) 2] bus none s2
  have b: "map topic (mock_events (kafka_handler (snd
        (validate_kyc (\<lambda>s. s) (example_rules failing_check) ?env
           document_kyc_agent ''doc1'' ''C1''))))
       = [''kyc-validation-completed'']"
    by simp
  from example_cache_miss(1) bus a b show ?thesis by blast
qed

end
